theory Spec2Isabelle
  imports Main "HOL-Library.AList"
begin

section \<open>Barcode demultiplexing: the data model of \<open>barcodeDemulti.py\<close>\<close>

text \<open>
  Python strings are modelled as \<open>string\<close> (lists of characters), Python integers as
  \<open>int\<close>. A Python \<open>dict\<close> keeps its keys in insertion order and overwrites the value of a
  key that is already present without moving it; this is exactly what \<open>AList.update\<close> does
  on an association list, and \<open>map_of\<close> is the lookup. Every object the code mutates in
  place (hit tables, records, the undetermined counter, the output handles) is passed in
  and returned updated.
\<close>

text \<open>
  \<^verbatim>\<open>class FastqEntry\<close>: the name, sequence and quality line of one record (the separator
  line is dropped by the constructor).
\<close>

record FastqEntry =
  name :: string
  seq :: string
  quali :: string

text \<open>
  \<^verbatim>\<open>class Index\<close>: \<open>self.sequence\<close>, \<open>self.mismatches\<close> (an \<open>int\<close> read by argparse, so it may
  be negative) and the hit table \<open>self.hits\<close>.
\<close>

record Index =
  sequence :: string
  mismatches :: int
  hits :: "(string \<times> int) list"

definition Index_init :: "string \<Rightarrow> int \<Rightarrow> Index" where
  "Index_init s m = \<lparr>sequence = s, mismatches = m, hits = []\<rparr>"

text \<open>
  \<^verbatim>\<open>nrM = sum(t != 'N' and s != t for s, t in zip(querySeq, self.sequence))\<close>:
  \<open>zip\<close> stops at the shorter of the two strings, a true test counts 1.
\<close>

definition nrM :: "string \<Rightarrow> string \<Rightarrow> int" where
  "nrM querySeq pat =
     sum_list (map (\<lambda>(s, t). if t \<noteq> CHR ''N'' \<and> s \<noteq> t then 1 else 0) (zip querySeq pat))"

text \<open>\<^verbatim>\<open>Index.match\<close>.\<close>

definition Index_match :: "Index \<Rightarrow> string \<Rightarrow> bool" where
  "Index_match ix querySeq =
     (if sequence ix = ''-'' then True
      else nrM querySeq (sequence ix) \<le> mismatches ix)"

text \<open>
  \<^verbatim>\<open>Index.recordHit\<close>: the slice \<open>seq[:len(self.sequence)]\<close> is \<open>take\<close>; a key that is
  absent is first entered with count 0, then the count of the key is incremented. The
  lookup in the increment cannot miss, the key having been entered on the line before.
\<close>

definition recordHit :: "Index \<Rightarrow> string \<Rightarrow> Index" where
  "recordHit ix s =
     (let clippedSeq = take (length (sequence ix)) s;
          hits0 = (if map_of (hits ix) clippedSeq = None
                   then AList.update clippedSeq 0 (hits ix) else hits ix)
      in ix\<lparr>hits := AList.update clippedSeq (the (map_of hits0 clippedSeq) + 1) hits0\<rparr>)"

text \<open>The positions the specification counts: below the pattern length, the pattern
  character is not \<open>N\<close> and differs from the query character.\<close>

definition mismatch_positions :: "string \<Rightarrow> string \<Rightarrow> nat set" where
  "mismatch_positions pat querySeq =
     {i. i < length pat \<and> pat ! i \<noteq> CHR ''N'' \<and> pat ! i \<noteq> querySeq ! i}"

text \<open>
  \<^verbatim>\<open>class QuadrupelIndex\<close>: one \<open>Index\<close> per channel, all built with the same mismatch
  budget.
\<close>

record QuadrupelIndex =
  i1 :: Index
  i2 :: Index
  bc1 :: Index
  bc2 :: Index

definition QuadrupelIndex_init :: "string \<Rightarrow> string \<Rightarrow> string \<Rightarrow> string \<Rightarrow> int \<Rightarrow> QuadrupelIndex" where
  "QuadrupelIndex_init s1 s2 b1 b2 m =
     \<lparr>i1 = Index_init s1 m, i2 = Index_init s2 m, bc1 = Index_init b1 m, bc2 = Index_init b2 m\<rparr>"

text \<open>
  \<^verbatim>\<open>QuadrupelIndex.match(self, r1, r2, i1, i2)\<close>: returns the truth value together with the
  (possibly updated) object. \<open>Index.match\<close> reads only, so the short-circuit of
  \<open>and\<close> is not observable.
\<close>

definition QuadrupelIndex_match ::
  "QuadrupelIndex \<Rightarrow> string \<Rightarrow> string \<Rightarrow> string \<Rightarrow> string \<Rightarrow> bool \<times> QuadrupelIndex" where
  "QuadrupelIndex_match qi r1s r2s i1s i2s =
     (if Index_match (i1 qi) i1s \<and> Index_match (i2 qi) i2s \<and>
         Index_match (bc1 qi) r1s \<and> Index_match (bc2 qi) r2s
      then (True, qi\<lparr>i1 := recordHit (i1 qi) i1s, i2 := recordHit (i2 qi) i2s,
                      bc1 := recordHit (bc1 qi) r1s, bc2 := recordHit (bc2 qi) r2s\<rparr>)
      else (False, qi))"

text \<open>
  The exceptions the modelled code can raise: the unpacking of a sheet line into five
  names (\<open>ValueError\<close>), the \<open>assert\<close> on the letters, a directory that cannot be made or
  a file that cannot be opened for an output handle (\<open>OSError\<close>, which stands for its
  subclasses such as \<open>FileNotFoundError\<close> too), and a lookup of an output handle under a
  name that has none (\<open>KeyError\<close>).
\<close>

datatype error = ValueError | AssertionError | OSError | KeyError

text \<open>
  \<^verbatim>\<open>class SampleSheet\<close>. An output handle is modelled by the strings handed to its
  \<open>writelines\<close> so far; \<open>self.outputHandles[name]\<close> is the pair of the read-1 and the
  read-2 handle.
\<close>

record SampleSheet =
  samples :: "(string \<times> QuadrupelIndex) list"
  outputHandles :: "(string \<times> (string list \<times> string list)) list"
  nameOrder :: "string list"
  withUndetermined :: bool
  undetermined :: int

text \<open>
  The loop over the lines of the sheet in \<^verbatim>\<open>SampleSheet.__init__\<close>. A line is given by
  the result of \<open>line.strip().split()\<close>, its list of whitespace-separated fields. The
  unpacking into \<open>[name, i1, i2, bc1, bc2]\<close> needs exactly five fields; then every letter
  of \<open>i1 + i2 + bc1 + bc2\<close> is asserted to be in \<open>"ACTGN-"\<close>; then the sample is stored
  under its name and the name appended to \<open>nameOrder\<close>.
\<close>

fun read_sheet ::
  "string list list \<Rightarrow> int \<Rightarrow> (string \<times> QuadrupelIndex) list \<Rightarrow> string list \<Rightarrow>
     error + ((string \<times> QuadrupelIndex) list \<times> string list)" where
  "read_sheet [] m smp ord = Inr (smp, ord)"
| "read_sheet (line # rest) m smp ord =
     (case line of
        [nm, s1, s2, b1, b2] \<Rightarrow>
          if list_all (\<lambda>letter. letter \<in> set ''ACTGN-'') (s1 @ s2 @ b1 @ b2)
          then read_sheet rest m (AList.update nm (QuadrupelIndex_init s1 s2 b1 b2 m) smp)
                 (ord @ [nm])
          else Inl AssertionError
      | _ \<Rightarrow> Inl ValueError)"

text \<open>
  The file system as the constructor meets it: for a directory path, whether
  \<open>os.makedirs(path, exist_ok=True)\<close> succeeds, and for a file path, whether
  \<open>gzip.open(path, "wt")\<close> succeeds. It is a parameter of the model.
\<close>

record FileSystem =
  makedirs_ok :: "string \<Rightarrow> bool"
  open_ok :: "string \<Rightarrow> bool"

text \<open>
  \<open>str.replace(old, new)\<close> for a non-empty \<open>old\<close> (both uses in the constructor have
  one): the occurrences of \<open>old\<close> are replaced from left to right, without overlap.
\<close>

fun py_replace :: "string \<Rightarrow> string \<Rightarrow> string \<Rightarrow> string" where
  "py_replace old new [] = []"
| "py_replace old new (c # cs) =
     (if old \<noteq> [] \<and> take (length old) (c # cs) = old
      then new @ py_replace old new (drop (length old) (c # cs))
      else c # py_replace old new cs)"

text \<open>
  \<open>os.path.dirname\<close> (POSIX): the path up to and with its last slash, then without the
  trailing slashes unless it consists of slashes only; empty for a path with no slash.
\<close>

definition dirname :: "string \<Rightarrow> string" where
  "dirname p =
     (let head = rev (dropWhile (\<lambda>c. c \<noteq> CHR ''/'') (rev p))
      in if head \<noteq> [] \<and> \<not> list_all (\<lambda>c. c = CHR ''/'') head
         then rev (dropWhile (\<lambda>c. c = CHR ''/'') (rev head))
         else head)"

text \<open>
  The second loop of the constructor: for every name the two paths are built from the
  template, the directory of the first is made (\<open>os.makedirs\<close> raises on the empty path,
  which is what \<open>dirname\<close> gives for a template without a directory part), the two files
  are opened and the fresh pair of handles is stored under the name.
\<close>

fun open_handles ::
  "FileSystem \<Rightarrow> string \<Rightarrow> string list \<Rightarrow> (string \<times> (string list \<times> string list)) list \<Rightarrow>
     error + (string \<times> (string list \<times> string list)) list" where
  "open_handles fs outputTemplate [] h = Inr h"
| "open_handles fs outputTemplate (nm # allNames) h =
     (let outputNameR1 = py_replace ''%r%'' ''1'' (py_replace ''%name%'' nm outputTemplate);
          outputNameR2 = py_replace ''%r%'' ''2'' (py_replace ''%name%'' nm outputTemplate);
          outputDir = dirname outputNameR1
      in if outputDir = [] \<or> \<not> makedirs_ok fs outputDir then Inl OSError
         else if \<not> open_ok fs outputNameR1 then Inl OSError
         else if \<not> open_ok fs outputNameR2 then Inl OSError
         else open_handles fs outputTemplate allNames (AList.update nm ([], []) h))"

text \<open>\<^verbatim>\<open>SampleSheet.__init__\<close>: the sheet is read first, the handles are opened after.\<close>

definition SampleSheet_init ::
  "FileSystem \<Rightarrow> string list list \<Rightarrow> string \<Rightarrow> int \<Rightarrow> bool \<Rightarrow> error + SampleSheet" where
  "SampleSheet_init fs sample_sheet outputTemplate m withUnd =
     (case read_sheet sample_sheet m [] [] of
        Inl e \<Rightarrow> Inl e
      | Inr (smp, ord) \<Rightarrow>
          let allNames = (if withUnd then map fst smp @ [''Undetermined''] else map fst smp)
          in (case open_handles fs outputTemplate allNames [] of
                Inl e \<Rightarrow> Inl e
              | Inr h \<Rightarrow>
                  Inr \<lparr>samples = smp, outputHandles = h, nameOrder = ord,
                       withUndetermined = withUnd, undetermined = 0\<rparr>))"

text \<open>\<^verbatim>\<open>SampleSheet.writeFastQ\<close>: four lines per record, each ended by a newline.\<close>

definition fastq_lines :: "FastqEntry \<Rightarrow> string list" where
  "fastq_lines e =
     [name e @ [CHR 0x0A], seq e @ [CHR 0x0A], ''+'' @ [CHR 0x0A], quali e @ [CHR 0x0A]]"

definition writeFastQ :: "SampleSheet \<Rightarrow> string \<Rightarrow> FastqEntry \<times> FastqEntry \<Rightarrow> error + SampleSheet" where
  "writeFastQ sh nm fastqPair =
     (case map_of (outputHandles sh) nm of
        None \<Rightarrow> Inl KeyError
      | Some (f1, f2) \<Rightarrow>
          Inr (sh\<lparr>outputHandles :=
                 AList.update nm (f1 @ fastq_lines (fst fastqPair), f2 @ fastq_lines (snd fastqPair))
                   (outputHandles sh)\<rparr>))"

text \<open>
  The \<open>for ... in self.samples.items()\<close> loop of \<^verbatim>\<open>SampleSheet.process\<close>, up to its
  \<open>break\<close>: the samples are offered the four sequences in the order of the dictionary;
  the result is the entry that matched, if any, and the dictionary with the hit tables as
  the calls of \<open>match\<close> left them.
\<close>

fun process_samples ::
  "(string \<times> QuadrupelIndex) list \<Rightarrow> string \<Rightarrow> string \<Rightarrow> string \<Rightarrow> string \<Rightarrow>
     (string \<times> QuadrupelIndex) option \<times> (string \<times> QuadrupelIndex) list" where
  "process_samples [] r1s r2s i1s i2s = (None, [])"
| "process_samples ((nm, qIndex) # rest) r1s r2s i1s i2s =
     (case QuadrupelIndex_match qIndex r1s r2s i1s i2s of
        (True, qIndex') \<Rightarrow> (Some (nm, qIndex'), (nm, qIndex') # rest)
      | (False, qIndex') \<Rightarrow>
          (case process_samples rest r1s r2s i1s i2s of
             (found, rest') \<Rightarrow> (found, (nm, qIndex') # rest')))"

text \<open>
  \<^verbatim>\<open>SampleSheet.process\<close>. The records \<open>fastqR1\<close> and \<open>fastqR2\<close> are mutated in place by
  the source, so they are returned with the sheet. The slice \<open>s[clip:]\<close> is \<open>drop\<close>.
\<close>

definition process ::
  "SampleSheet \<Rightarrow> FastqEntry \<Rightarrow> FastqEntry \<Rightarrow> FastqEntry \<Rightarrow> FastqEntry \<Rightarrow>
     error + (SampleSheet \<times> FastqEntry \<times> FastqEntry)" where
  "process sh fastqR1 fastqR2 fastqI1 fastqI2 =
     (case process_samples (samples sh) (seq fastqR1) (seq fastqR2) (seq fastqI1) (seq fastqI2) of
        (Some (nm, qIndex), smp) \<Rightarrow>
          let queryBC1 = sequence (bc1 qIndex);
              queryBC2 = sequence (bc2 qIndex);
              clip1 = (if queryBC1 = ''-'' then 0 else length queryBC1);
              clip2 = (if queryBC2 = ''-'' then 0 else length queryBC2);
              fastqR1' = fastqR1\<lparr>seq := drop clip1 (seq fastqR1), quali := drop clip1 (quali fastqR1)\<rparr>;
              fastqR2' = fastqR2\<lparr>seq := drop clip2 (seq fastqR2), quali := drop clip2 (quali fastqR2)\<rparr>
          in (case writeFastQ (sh\<lparr>samples := smp\<rparr>) nm (fastqR1', fastqR2') of
                Inl e \<Rightarrow> Inl e
              | Inr sh' \<Rightarrow> Inr (sh', fastqR1', fastqR2'))
      | (None, smp) \<Rightarrow>
          let sh1 = sh\<lparr>samples := smp, undetermined := undetermined sh + 1\<rparr>
          in if withUndetermined sh
             then (case writeFastQ sh1 ''Undetermined'' (fastqR1, fastqR2) of
                     Inl e \<Rightarrow> Inl e
                   | Inr sh' \<Rightarrow> Inr (sh', fastqR1, fastqR2))
             else Inr (sh1, fastqR1, fastqR2))"

text \<open>
  The main loop. Each of the four record streams is given as the list of records its
  reader yields; \<open>zip\<close> of the four stops with the shortest one. \<open>nr\<close>
  starts at 1 and is incremented after every call of \<open>process\<close>, and with a cap
  \<open>endAfter\<close> the loop is left as soon as \<open>nr > endAfter\<close> (the test comes after the call,
  so the first quadruple is processed under every cap). The final \<open>nr\<close> is returned with
  the sheet: \<open>nr - 1\<close> calls of \<open>process\<close> were made.
\<close>

fun main_loop ::
  "SampleSheet \<Rightarrow> int \<Rightarrow> int option \<Rightarrow> (FastqEntry \<times> FastqEntry \<times> FastqEntry \<times> FastqEntry) list \<Rightarrow>
     error + (SampleSheet \<times> int)" where
  "main_loop sh nr endAfter [] = Inr (sh, nr)"
| "main_loop sh nr endAfter ((r1, r2, x1, x2) # rest) =
     (case process sh r1 r2 x1 x2 of
        Inl e \<Rightarrow> Inl e
      | Inr (sh', _, _) \<Rightarrow>
          (case endAfter of
             Some n \<Rightarrow> if nr + 1 > n then Inr (sh', nr + 1)
                       else main_loop sh' (nr + 1) endAfter rest
           | None \<Rightarrow> main_loop sh' (nr + 1) endAfter rest))"

definition main ::
  "FileSystem \<Rightarrow> string list list \<Rightarrow> string \<Rightarrow> int \<Rightarrow> bool \<Rightarrow> int option \<Rightarrow>
     FastqEntry list \<Rightarrow> FastqEntry list \<Rightarrow> FastqEntry list \<Rightarrow> FastqEntry list \<Rightarrow>
     error + (SampleSheet \<times> int)" where
  "main fs sample_sheet outputTemplate m withUnd endAfter fqR1 fqR2 fqI1 fqI2 =
     (case SampleSheet_init fs sample_sheet outputTemplate m withUnd of
        Inl e \<Rightarrow> Inl e
      | Inr sh \<Rightarrow> main_loop sh 1 endAfter (zip fqR1 (zip fqR2 (zip fqI1 fqI2))))"

text \<open>
  \<^verbatim>\<open>sum(qi.i1.hits.values())\<close>, the number \<open>reportStats\<close> prints as a sample's total, and
  the two run totals it prints last: the sum of these over \<open>nameOrder\<close> and the
  undetermined counter.
\<close>

definition accepted_count :: "QuadrupelIndex \<Rightarrow> int" where
  "accepted_count qi = sum_list (map snd (hits (i1 qi)))"

fun reportStats_total :: "(string \<times> QuadrupelIndex) list \<Rightarrow> string list \<Rightarrow> error + int" where
  "reportStats_total smp [] = Inr 0"
| "reportStats_total smp (nm # ord) =
     (case map_of smp nm of
        None \<Rightarrow> Inl KeyError
      | Some qi \<Rightarrow>
          (case reportStats_total smp ord of
             Inl e \<Rightarrow> Inl e
           | Inr tot \<Rightarrow> Inr (accepted_count qi + tot)))"

definition reportStats :: "SampleSheet \<Rightarrow> error + (int \<times> int)" where
  "reportStats sh =
     (case reportStats_total (samples sh) (nameOrder sh) of
        Inl e \<Rightarrow> Inl e
      | Inr tot \<Rightarrow> Inr (tot, undetermined sh))"

text \<open>The terms of the conservation law: the undetermined counter and one accepted
  count per sample.\<close>

definition counters :: "SampleSheet \<Rightarrow> int list" where
  "counters sh = undetermined sh # map (\<lambda>(nm, qi). accepted_count qi) (samples sh)"

text \<open>Every name that \<open>process\<close> can write under has a pair of handles.\<close>

definition sinks_open :: "SampleSheet \<Rightarrow> bool" where
  "sinks_open sh \<longleftrightarrow>
     list_all (\<lambda>nm. map_of (outputHandles sh) nm \<noteq> None) (map fst (samples sh)) \<and>
     (withUndetermined sh \<longrightarrow> map_of (outputHandles sh) ''Undetermined'' \<noteq> None)"


text \<open>For a name, that its directory can be made and its two files opened: the tests
  of the second loop of the constructor.\<close>

definition handles_openable :: "FileSystem \<Rightarrow> string \<Rightarrow> string \<Rightarrow> bool" where
  "handles_openable fs outputTemplate nm \<longleftrightarrow>
     dirname (py_replace ''%r%'' ''1'' (py_replace ''%name%'' nm outputTemplate)) \<noteq> [] \<and>
     makedirs_ok fs (dirname (py_replace ''%r%'' ''1'' (py_replace ''%name%'' nm outputTemplate))) \<and>
     open_ok fs (py_replace ''%r%'' ''1'' (py_replace ''%name%'' nm outputTemplate)) \<and>
     open_ok fs (py_replace ''%r%'' ''2'' (py_replace ''%name%'' nm outputTemplate))"

text \<open>
  A sample without what it has recorded, and the statement that the samples of a state
  are those of the sheet line by line, whatever hits they have recorded since the
  constructor built them with budget \<open>m\<close>.
\<close>

definition forget_hits :: "QuadrupelIndex \<Rightarrow> QuadrupelIndex" where
  "forget_hits qi =
     \<lparr>i1 = (i1 qi)\<lparr>hits := []\<rparr>, i2 = (i2 qi)\<lparr>hits := []\<rparr>,
      bc1 = (bc1 qi)\<lparr>hits := []\<rparr>, bc2 = (bc2 qi)\<lparr>hits := []\<rparr>\<rparr>"

definition sheet_state :: "string list list \<Rightarrow> int \<Rightarrow> SampleSheet \<Rightarrow> bool" where
  "sheet_state sheet m sh \<longleftrightarrow>
     map (\<lambda>(nm, qi). (nm, forget_hits qi)) (samples sh) =
     map (\<lambda>line. (line ! 0, QuadrupelIndex_init (line ! 1) (line ! 2) (line ! 3) (line ! 4) m)) sheet"

text \<open>The number of leading characters \<open>process\<close> removes for a barcode signature:
  \<^verbatim>\<open>0 if queryBC == '-' else len(queryBC)\<close>.\<close>

definition clip_length :: "Index \<Rightarrow> nat" where
  "clip_length ix = (if sequence ix = ''-'' then 0 else length (sequence ix))"

text \<open>\<^verbatim>\<open>self.hits.get(k, 0)\<close>: the count a hit table holds for a key.\<close>

definition hit_count :: "Index \<Rightarrow> string \<Rightarrow> int" where
  "hit_count ix k = (case map_of (hits ix) k of None \<Rightarrow> 0 | Some v \<Rightarrow> v)"

text \<open>
  A small run to evaluate the model on: the sheet of the specification's end-to-end
  example with a second sample that has no barcodes, so that a quadruple with indices
  \<open>AAAA\<close> and \<open>CCCC\<close> and reads starting \<open>GGG\<close> and \<open>TTT\<close> matches both samples. The
  state is the one the constructor builds from the sheet with budget 0 and the
  undetermined bucket enabled, on a file system where every directory can be made and
  every file opened.
\<close>

definition example_fs :: FileSystem where
  "example_fs = \<lparr>makedirs_ok = (\<lambda>p. True), open_ok = (\<lambda>p. True)\<rparr>"

definition example_template :: string where
  "example_template = ''out/%name%_R%r%.fastq.gz''"

definition example_sheet :: "string list list" where
  "example_sheet =
     [[''S1'', ''AAAA'', ''CCCC'', ''GGG'', ''TTT''], [''S2'', ''AAAA'', ''CCCC'', ''-'', ''-'']]"

definition example_state :: SampleSheet where
  "example_state =
     \<lparr>samples = [(''S1'', QuadrupelIndex_init ''AAAA'' ''CCCC'' ''GGG'' ''TTT'' 0),
                 (''S2'', QuadrupelIndex_init ''AAAA'' ''CCCC'' ''-'' ''-'' 0)],
      outputHandles = [(''S1'', [], []), (''S2'', [], []), (''Undetermined'', [], [])],
      nameOrder = [''S1'', ''S2''], withUndetermined = True, undetermined = 0\<rparr>"

definition example_read :: "string \<Rightarrow> FastqEntry" where
  "example_read s = \<lparr>name = ''@r'', seq = s, quali = replicate (length s) CHR ''I''\<rparr>"

section \<open>The comparator\<close>

lemma sum_list_indicator:
  "sum_list (map (\<lambda>x. if P x then 1 else 0) xs) = int (length (filter P xs))"
  by (induction xs) simp_all

lemma nrM_card:
  "nrM q p = int (card {i. i < min (length q) (length p) \<and> p ! i \<noteq> CHR ''N'' \<and> q ! i \<noteq> p ! i})"
proof -
  let ?P = "\<lambda>(s, t). t \<noteq> CHR ''N'' \<and> s \<noteq> t"
  have "nrM q p = int (length (filter ?P (zip q p)))"
    unfolding nrM_def using sum_list_indicator [of ?P "zip q p"]
    by (simp add: case_prod_unfold)
  also have "length (filter ?P (zip q p)) =
      card {i. i < length (zip q p) \<and> ?P (zip q p ! i)}"
    by (rule length_filter_conv_card)
  also have "{i. i < length (zip q p) \<and> ?P (zip q p ! i)} =
      {i. i < min (length q) (length p) \<and> p ! i \<noteq> CHR ''N'' \<and> q ! i \<noteq> p ! i}"
    by auto
  finally show ?thesis .
qed

lemma nrM_nonneg: "0 \<le> nrM q p"
  by (simp add: nrM_card)

lemma nrM_long_query:
  assumes "length p \<le> length q"
  shows "nrM q p = int (card (mismatch_positions p q))"
proof -
  have "{i. i < min (length q) (length p) \<and> p ! i \<noteq> CHR ''N'' \<and> q ! i \<noteq> p ! i} =
        mismatch_positions p q"
    using assms by (auto simp: mismatch_positions_def)
  then show ?thesis by (simp add: nrM_card)
qed

lemma nrM_pattern_N:
  assumes "p ! i = CHR ''N''"
  shows "nrM (q[i := c]) p = nrM q p"
proof -
  have "{j. j < min (length (q[i := c])) (length p) \<and> p ! j \<noteq> CHR ''N'' \<and> q[i := c] ! j \<noteq> p ! j} =
        {j. j < min (length q) (length p) \<and> p ! j \<noteq> CHR ''N'' \<and> q ! j \<noteq> p ! j}"
  proof (rule Collect_cong)
    fix j
    show "(j < min (length (q[i := c])) (length p) \<and> p ! j \<noteq> CHR ''N'' \<and> q[i := c] ! j \<noteq> p ! j) =
          (j < min (length q) (length p) \<and> p ! j \<noteq> CHR ''N'' \<and> q ! j \<noteq> p ! j)"
      using assms by (cases "j = i") auto
  qed
  then show ?thesis by (simp add: nrM_card)
qed

lemma nrM_query_N:
  assumes "i < length p" "i < length q" "p ! i \<noteq> CHR ''N''" "q ! i \<noteq> p ! i"
  shows "nrM q p = nrM (q[i := p ! i]) p + 1"
proof -
  let ?A = "{j. j < min (length q) (length p) \<and> p ! j \<noteq> CHR ''N'' \<and> q[i := p ! i] ! j \<noteq> p ! j}"
  have fin: "finite ?A" by simp
  have notin: "i \<notin> ?A" using assms by simp
  have "{j. j < min (length q) (length p) \<and> p ! j \<noteq> CHR ''N'' \<and> q ! j \<noteq> p ! j} = insert i ?A"
    using assms by (auto simp: nth_list_update split: if_splits)
  then have "nrM q p = int (card (insert i ?A))" by (simp add: nrM_card)
  also have "\<dots> = int (card ?A) + 1" using fin notin by simp
  also have "int (card ?A) = nrM (q[i := p ! i]) p" by (simp add: nrM_card)
  finally show ?thesis .
qed

text \<open>
  Claim C1. For a pattern other than \<open>"-"\<close> and a query at least as long as the pattern,
  \<open>match\<close> returns true exactly when the number of positions below the pattern length at
  which the pattern character is not \<open>N\<close> and differs from the query character is at most
  the budget. So a query with exactly as many such positions as the budget matches and one
  with one more does not. A pattern \<open>N\<close> is never such a position, whatever the query holds
  there: overwriting the query at that position never changes the answer. A query \<open>N\<close>
  under a pattern character other than \<open>N\<close> is such a position: it costs exactly one
  mismatch more than the pattern's own character would.
\<close>

theorem Index_match_threshold:
  assumes "sequence ix \<noteq> ''-''" and "length (sequence ix) \<le> length q"
  shows "(Index_match ix q \<longleftrightarrow> int (card (mismatch_positions (sequence ix) q)) \<le> mismatches ix)
       \<and> (int (card (mismatch_positions (sequence ix) q)) = mismatches ix \<longrightarrow> Index_match ix q)
       \<and> (int (card (mismatch_positions (sequence ix) q)) = mismatches ix + 1 \<longrightarrow> \<not> Index_match ix q)
       \<and> (\<forall>i c. i < length (sequence ix) \<and> sequence ix ! i = CHR ''N'' \<longrightarrow>
             i \<notin> mismatch_positions (sequence ix) (q[i := c]) \<and>
             Index_match ix (q[i := c]) = Index_match ix q)
       \<and> (\<forall>i. i < length (sequence ix) \<and> sequence ix ! i \<noteq> CHR ''N'' \<and> q ! i = CHR ''N'' \<longrightarrow>
             i \<in> mismatch_positions (sequence ix) q \<and>
             nrM q (sequence ix) = nrM (q[i := sequence ix ! i]) (sequence ix) + 1)"
proof -
  have m: "Index_match ix q' \<longleftrightarrow> nrM q' (sequence ix) \<le> mismatches ix" for q'
    using assms(1) by (simp add: Index_match_def)
  have c: "nrM q (sequence ix) = int (card (mismatch_positions (sequence ix) q))"
    using assms(2) by (rule nrM_long_query)
  have 1: "Index_match ix q \<longleftrightarrow> int (card (mismatch_positions (sequence ix) q)) \<le> mismatches ix"
    using m c by simp
  have 4: "i \<notin> mismatch_positions (sequence ix) (q[i := c]) \<and>
           Index_match ix (q[i := c]) = Index_match ix q"
    if "sequence ix ! i = CHR ''N''" for i c
    using that m nrM_pattern_N [of "sequence ix" i q c] by (simp add: mismatch_positions_def)
  have 5: "i \<in> mismatch_positions (sequence ix) q \<and>
           nrM q (sequence ix) = nrM (q[i := sequence ix ! i]) (sequence ix) + 1"
    if "i < length (sequence ix)" "sequence ix ! i \<noteq> CHR ''N''" "q ! i = CHR ''N''" for i
    using that assms(2) nrM_query_N [of i "sequence ix" q] by (simp add: mismatch_positions_def)
  show ?thesis using 1 4 5 by simp
qed

theorem Index_match_threshold_witness:
  "sequence (Index_init ''ACNT'' 1) \<noteq> ''-''
   \<and> length (sequence (Index_init ''ACNT'' 1)) \<le> length ''AGGT''
   \<and> (Index_match (Index_init ''ACNT'' 1) ''AGGT'' \<longleftrightarrow>
        int (card (mismatch_positions (sequence (Index_init ''ACNT'' 1)) ''AGGT'')) \<le> 1)
   \<and> Index_match (Index_init ''ACNT'' 1) ''AGGT''
   \<and> \<not> Index_match (Index_init ''ACNT'' 1) ''AGGN''"
  using Index_match_threshold [of "Index_init ''ACNT'' 1" "''AGGT''"]
  by (simp add: Index_init_def Index_match_def nrM_def)

text \<open>
  Claim C10. For a query strictly shorter than a pattern other than \<open>"-"\<close>, \<open>match\<close> still
  returns a truth value (\<open>zip\<close> pairs the characters up to the end of the query and
  nothing is indexed, so nothing can raise): it is true exactly when the mismatches of the
  query against the pattern's prefix of the query's length are within the budget. The
  count is the same as against that prefix alone. The empty query has no mismatch and
  matches every pattern under a budget that is not negative.
\<close>

theorem short_query_match:
  assumes "sequence ix \<noteq> ''-''" and "length q < length (sequence ix)"
  shows "(Index_match ix q \<longleftrightarrow>
            int (card (mismatch_positions (take (length q) (sequence ix)) q)) \<le> mismatches ix)
       \<and> nrM q (sequence ix) = nrM q (take (length q) (sequence ix))
       \<and> (0 \<le> mismatches ix \<longrightarrow> Index_match ix [])"
proof -
  have a: "{i. i < min (length q) (length (sequence ix)) \<and> sequence ix ! i \<noteq> CHR ''N'' \<and> q ! i \<noteq> sequence ix ! i}
         = mismatch_positions (take (length q) (sequence ix)) q"
    using assms(2) by (auto simp: mismatch_positions_def)
  have b: "nrM q (sequence ix) = int (card (mismatch_positions (take (length q) (sequence ix)) q))"
    unfolding nrM_card a by (rule refl)
  have c: "nrM q (take (length q) (sequence ix)) = int (card (mismatch_positions (take (length q) (sequence ix)) q))"
    using assms(2) by (intro nrM_long_query) simp
  have d: "nrM [] (sequence ix) = 0" by (simp add: nrM_def)
  show ?thesis using assms(1) b c d by (simp add: Index_match_def)
qed

theorem short_query_match_witness:
  "sequence (Index_init ''ACGT'' 1) \<noteq> ''-''
   \<and> length ''AG'' < length (sequence (Index_init ''ACGT'' 1))
   \<and> (Index_match (Index_init ''ACGT'' 1) ''AG'' \<longleftrightarrow>
      int (card (mismatch_positions (take (length ''AG'') (sequence (Index_init ''ACGT'' 1))) ''AG'')) \<le> 1)
   \<and> Index_match (Index_init ''ACGT'' 1) ''AG''
   \<and> \<not> Index_match (Index_init ''ACGT'' 0) ''AG''
   \<and> Index_match (Index_init ''ACGT'' 1) []"
  using short_query_match [of "Index_init ''ACGT'' 1" "''AG''"]
  by (simp add: Index_init_def Index_match_def nrM_def)

section \<open>Hit tables\<close>

lemma recordHit_hits:
  "hits (recordHit ix s) =
     AList.update (take (length (sequence ix)) s)
       (hit_count ix (take (length (sequence ix)) s) + 1) (hits ix)"
  by (auto simp: recordHit_def hit_count_def Let_def AList.update_conv')

lemma recordHit_fields [simp]:
  "sequence (recordHit ix s) = sequence ix" "mismatches (recordHit ix s) = mismatches ix"
  by (simp_all add: recordHit_def Let_def)

lemma recordHit_keys:
  "fst ` set (hits (recordHit ix s)) = insert (take (length (sequence ix)) s) (fst ` set (hits ix))"
  by (simp add: recordHit_hits AList.dom_update)

lemma hit_count_recordHit:
  "hit_count (recordHit ix s) k =
     hit_count ix k + (if k = take (length (sequence ix)) s then 1 else 0)"
  by (simp add: hit_count_def recordHit_hits AList.update_conv')

lemma sum_list_snd_update:
  "sum_list (map snd (AList.update k v al)) =
     sum_list (map snd al) - (case map_of al k of None \<Rightarrow> 0 | Some w \<Rightarrow> w) + (v::int)"
  by (induction al) auto

lemma recordHit_sum:
  "sum_list (map snd (hits (recordHit ix s))) = sum_list (map snd (hits ix)) + 1"
  by (simp add: recordHit_hits sum_list_snd_update hit_count_def)

lemma recordHit_changes: "hits (recordHit ix s) \<noteq> hits ix"
  using recordHit_sum [of ix s] by auto

lemma foldl_recordHit_sequence [simp]: "sequence (foldl recordHit ix qs) = sequence ix"
  by (induction qs arbitrary: ix) simp_all

lemma foldl_recordHit_keys:
  "fst ` set (hits (foldl recordHit ix qs)) =
     fst ` set (hits ix) \<union> take (length (sequence ix)) ` set qs"
  by (induction qs arbitrary: ix) (auto simp: recordHit_keys)

text \<open>
  Claim C5, as the code has it. A signature with pattern \<open>"-"\<close> matches every query. Its
  \<open>recordHit\<close> clips the query to the length of the pattern string, and \<open>"-"\<close> has length
  one: the key recorded is the first character of the query (its count goes up by one and
  no other count changes), and it is the empty string only for the empty query.
\<close>

theorem wildcard_match_and_key:
  assumes "sequence ix = ''-''"
  shows "Index_match ix q
       \<and> fst ` set (hits (recordHit ix q)) = insert (take 1 q) (fst ` set (hits ix))
       \<and> hit_count (recordHit ix q) (take 1 q) = hit_count ix (take 1 q) + 1
       \<and> (\<forall>k. k \<noteq> take 1 q \<longrightarrow> hit_count (recordHit ix q) k = hit_count ix k)
       \<and> (take 1 q = [] \<longleftrightarrow> q = [])"
  using assms by (simp add: Index_match_def recordHit_keys hit_count_recordHit)

theorem wildcard_match_and_key_witness:
  "sequence (Index_init ''-'' 1) = ''-''
   \<and> Index_match (Index_init ''-'' 1) ''ACGT''
   \<and> fst ` set (hits (recordHit (Index_init ''-'' 1) ''ACGT'')) = {''A''}
   \<and> hit_count (recordHit (Index_init ''-'' 1) ''ACGT'') ''A'' = 1"
  using wildcard_match_and_key [of "Index_init ''-'' 1" "''ACGT''"]
  by (simp add: Index_init_def hit_count_def)

text \<open>The claim as stated fails: for the query \<open>ACGT\<close> the key recorded under the
  pattern \<open>"-"\<close> is \<open>A\<close>, not the empty string.\<close>

theorem wildcard_key_counterexample:
  "Index_match (Index_init ''-'' 1) ''ACGT'' \<and>
   map fst (hits (recordHit (Index_init ''-'' 1) ''ACGT'')) = [''A''] \<and>
   ''A'' \<noteq> ''''"
  by (simp add: Index_match_def Index_init_def recordHit_def)

text \<open>
  Claim C8, as the code has it. The pattern, and so its length, stays what the
  constructor was given. After any sequence of \<open>recordHit\<close> calls on a fresh signature the
  keys of the hit table are exactly the recorded queries clipped to the pattern length;
  every key is at most as long as the pattern, and all keys have exactly the pattern
  length when every recorded query is at least that long.
\<close>

theorem hit_keys_clipped:
  "sequence (foldl recordHit (Index_init p m) qs) = p
   \<and> fst ` set (hits (foldl recordHit (Index_init p m) qs)) = take (length p) ` set qs
   \<and> (\<forall>k \<in> fst ` set (hits (foldl recordHit (Index_init p m) qs)). length k \<le> length p)
   \<and> ((\<forall>q \<in> set qs. length p \<le> length q) \<longrightarrow>
        (\<forall>k \<in> fst ` set (hits (foldl recordHit (Index_init p m) qs)). length k = length p))"
proof -
  have s: "sequence (Index_init p m) = p" and h: "hits (Index_init p m) = []"
    by (simp_all add: Index_init_def)
  have k: "fst ` set (hits (foldl recordHit (Index_init p m) qs)) = take (length p) ` set qs"
    using foldl_recordHit_keys [of "Index_init p m" qs] by (simp add: s h)
  show ?thesis unfolding k by (auto simp: s)
qed

theorem hit_keys_clipped_witness:
  "list_all (\<lambda>q. length ''ACGT'' \<le> length q) [''ACGTTT'', ''ACCTAA'']
   \<and> fst ` set (hits (foldl recordHit (Index_init ''ACGT'' 1) [''ACGTTT'', ''ACCTAA''])) = {''ACGT'', ''ACCT''}
   \<and> length ` fst ` set (hits (foldl recordHit (Index_init ''ACGT'' 1) [''ACGTTT'', ''ACCTAA''])) = {4}"
  using hit_keys_clipped [of "''ACGT''" 1 "[''ACGTTT'', ''ACCTAA'']"] by simp

text \<open>The claim as stated fails: the query \<open>AC\<close> matches the pattern \<open>ACGT\<close> under
  budget 1 (see C10), and recording it enters the key \<open>AC\<close>, shorter than the pattern.\<close>

theorem hit_key_length_counterexample:
  "Index_match (Index_init ''ACGT'' 1) ''AC'' \<and>
   map fst (hits (recordHit (Index_init ''ACGT'' 1) ''AC'')) = [''AC''] \<and>
   length ''AC'' \<noteq> length (sequence (recordHit (Index_init ''ACGT'' 1) ''AC''))"
  by (simp add: Index_match_def Index_init_def recordHit_def nrM_def)

section \<open>The four-channel signature\<close>

text \<open>
  Claim C6. \<open>QuadrupelIndex.match\<close> returns true exactly when all four channels match
  (index 1 against the index-1 sequence, index 2 against the index-2 sequence, barcode 1
  against read 1, barcode 2 against read 2). Then the object it leaves is the old one with
  \<open>recordHit\<close> applied on each channel to that channel's observed sequence, and each of
  the four hit tables has changed. When some channel fails, the object, with its four hit
  tables, is left as it was.
\<close>

theorem QuadrupelIndex_match_frame:
  "fst (QuadrupelIndex_match qi r1s r2s i1s i2s) =
     (Index_match (i1 qi) i1s \<and> Index_match (i2 qi) i2s \<and>
      Index_match (bc1 qi) r1s \<and> Index_match (bc2 qi) r2s)
   \<and> (fst (QuadrupelIndex_match qi r1s r2s i1s i2s) \<longrightarrow>
        snd (QuadrupelIndex_match qi r1s r2s i1s i2s) =
          qi\<lparr>i1 := recordHit (i1 qi) i1s, i2 := recordHit (i2 qi) i2s,
             bc1 := recordHit (bc1 qi) r1s, bc2 := recordHit (bc2 qi) r2s\<rparr>
        \<and> hits (i1 (snd (QuadrupelIndex_match qi r1s r2s i1s i2s))) \<noteq> hits (i1 qi)
        \<and> hits (i2 (snd (QuadrupelIndex_match qi r1s r2s i1s i2s))) \<noteq> hits (i2 qi)
        \<and> hits (bc1 (snd (QuadrupelIndex_match qi r1s r2s i1s i2s))) \<noteq> hits (bc1 qi)
        \<and> hits (bc2 (snd (QuadrupelIndex_match qi r1s r2s i1s i2s))) \<noteq> hits (bc2 qi))
   \<and> (\<not> fst (QuadrupelIndex_match qi r1s r2s i1s i2s) \<longrightarrow>
        snd (QuadrupelIndex_match qi r1s r2s i1s i2s) = qi)"
  by (simp add: QuadrupelIndex_match_def recordHit_changes)

theorem QuadrupelIndex_match_frame_witness:
  "fst (QuadrupelIndex_match (QuadrupelIndex_init ''AAAA'' ''CCCC'' ''GGG'' ''-'' 0)
          ''GGGACGT'' ''TTTGGCA'' ''AAAA'' ''CCCC'')
   \<and> snd (QuadrupelIndex_match (QuadrupelIndex_init ''AAAA'' ''CCCC'' ''GGG'' ''-'' 0)
          ''GGGACGT'' ''TTTGGCA'' ''AAAA'' ''CCCC'') =
       \<lparr>i1 = \<lparr>sequence = ''AAAA'', mismatches = 0, hits = [(''AAAA'', 1)]\<rparr>,
        i2 = \<lparr>sequence = ''CCCC'', mismatches = 0, hits = [(''CCCC'', 1)]\<rparr>,
        bc1 = \<lparr>sequence = ''GGG'', mismatches = 0, hits = [(''GGG'', 1)]\<rparr>,
        bc2 = \<lparr>sequence = ''-'', mismatches = 0, hits = [(''T'', 1)]\<rparr>\<rparr>
   \<and> \<not> fst (QuadrupelIndex_match (QuadrupelIndex_init ''AAAA'' ''CCCC'' ''GGG'' ''-'' 0)
          ''GGGACGT'' ''TTTGGCA'' ''AAAT'' ''CCCC'')
   \<and> snd (QuadrupelIndex_match (QuadrupelIndex_init ''AAAA'' ''CCCC'' ''GGG'' ''-'' 0)
          ''GGGACGT'' ''TTTGGCA'' ''AAAT'' ''CCCC'') =
       QuadrupelIndex_init ''AAAA'' ''CCCC'' ''GGG'' ''-'' 0"
  using QuadrupelIndex_match_frame [of "QuadrupelIndex_init ''AAAA'' ''CCCC'' ''GGG'' ''-'' 0"
          "''GGGACGT''" "''TTTGGCA''" "''AAAA''" "''CCCC''"]
        QuadrupelIndex_match_frame [of "QuadrupelIndex_init ''AAAA'' ''CCCC'' ''GGG'' ''-'' 0"
          "''GGGACGT''" "''TTTGGCA''" "''AAAT''" "''CCCC''"]
  by (simp add: QuadrupelIndex_init_def Index_init_def Index_match_def nrM_def recordHit_def)

section \<open>The routing loop\<close>

lemma QuadrupelIndex_match_accepted:
  "accepted_count (snd (QuadrupelIndex_match q a b c d)) =
     accepted_count q + (if fst (QuadrupelIndex_match q a b c d) then 1 else 0)"
  by (simp add: QuadrupelIndex_match_def accepted_count_def recordHit_sum)

lemma QuadrupelIndex_match_sequence:
  "sequence (bc1 (snd (QuadrupelIndex_match q a b c d))) = sequence (bc1 q)"
  "sequence (bc2 (snd (QuadrupelIndex_match q a b c d))) = sequence (bc2 q)"
  by (simp_all add: QuadrupelIndex_match_def)

lemma QuadrupelIndex_match_fail:
  "\<not> fst (QuadrupelIndex_match q a b c d) \<Longrightarrow> snd (QuadrupelIndex_match q a b c d) = q"
  by (auto simp: QuadrupelIndex_match_def split: if_splits)

lemma process_samples_Cons:
  "process_samples ((nm, q) # rest) a b c d =
     (if fst (QuadrupelIndex_match q a b c d)
      then (Some (nm, snd (QuadrupelIndex_match q a b c d)),
            (nm, snd (QuadrupelIndex_match q a b c d)) # rest)
      else (fst (process_samples rest a b c d),
            (nm, snd (QuadrupelIndex_match q a b c d)) # snd (process_samples rest a b c d)))"
  by (cases "QuadrupelIndex_match q a b c d") (auto split: prod.splits)

lemma process_samples_no_match:
  assumes "\<forall>e \<in> set smp. \<not> fst (QuadrupelIndex_match (snd e) a b c d)"
  shows "process_samples smp a b c d = (None, smp)"
  using assms
proof (induction smp)
  case Nil
  then show ?case by simp
next
  case (Cons e smp)
  obtain nm q where e: "e = (nm, q)" by (cases e)
  have "snd (QuadrupelIndex_match q a b c d) = q"
    using Cons.prems e by (simp add: QuadrupelIndex_match_fail)
  with Cons e show ?case by (simp add: process_samples_Cons del: process_samples.simps)
qed

lemma process_samples_first:
  assumes "\<forall>e \<in> set pre. \<not> fst (QuadrupelIndex_match (snd e) a b c d)"
    and "fst (QuadrupelIndex_match q a b c d)"
  shows "process_samples (pre @ (nm, q) # rest) a b c d =
           (Some (nm, snd (QuadrupelIndex_match q a b c d)),
            pre @ (nm, snd (QuadrupelIndex_match q a b c d)) # rest)"
  using assms(1)
proof (induction pre)
  case Nil
  then show ?case using assms(2) by (simp add: process_samples_Cons del: process_samples.simps)
next
  case (Cons e pre)
  obtain nm' q' where e: "e = (nm', q')" by (cases e)
  have "snd (QuadrupelIndex_match q' a b c d) = q'"
    using Cons.prems e by (simp add: QuadrupelIndex_match_fail)
  with Cons e show ?case by (simp add: process_samples_Cons del: process_samples.simps)
qed

lemma first_match_split:
  "(\<forall>e \<in> set smp. \<not> P (snd e)) \<or>
   (\<exists>pre nm q rest. smp = pre @ (nm, q) # rest \<and> (\<forall>e \<in> set pre. \<not> P (snd e)) \<and> P q)"
proof (cases "\<exists>e \<in> set smp. P (snd e)")
  case True
  then obtain pre e rest where "smp = pre @ e # rest" "P (snd e)" "\<forall>y \<in> set pre. \<not> P (snd y)"
    using split_list_first_prop [of smp "\<lambda>e. P (snd e)"] by blast
  then show ?thesis by (cases e) auto
next
  case False
  then show ?thesis by blast
qed

section \<open>One call of \<open>process\<close>\<close>

lemma process_routed:
  assumes smp: "samples sh = pre @ (nm, q) # rest"
    and pre: "\<forall>e \<in> set pre. \<not> fst (QuadrupelIndex_match (snd e) (seq r1) (seq r2) (seq x1) (seq x2))"
    and hit: "fst (QuadrupelIndex_match q (seq r1) (seq r2) (seq x1) (seq x2))"
    and sink: "map_of (outputHandles sh) nm = Some (f1, f2)"
  shows "process sh r1 r2 x1 x2 =
     Inr (sh\<lparr>samples := pre @ (nm, snd (QuadrupelIndex_match q (seq r1) (seq r2) (seq x1) (seq x2))) # rest,
             outputHandles := AList.update nm
               (f1 @ fastq_lines (r1\<lparr>seq := drop (clip_length (bc1 q)) (seq r1),
                                       quali := drop (clip_length (bc1 q)) (quali r1)\<rparr>),
                f2 @ fastq_lines (r2\<lparr>seq := drop (clip_length (bc2 q)) (seq r2),
                                       quali := drop (clip_length (bc2 q)) (quali r2)\<rparr>))
               (outputHandles sh)\<rparr>,
          r1\<lparr>seq := drop (clip_length (bc1 q)) (seq r1), quali := drop (clip_length (bc1 q)) (quali r1)\<rparr>,
          r2\<lparr>seq := drop (clip_length (bc2 q)) (seq r2), quali := drop (clip_length (bc2 q)) (quali r2)\<rparr>)"
  unfolding process_def smp process_samples_first [OF pre hit]
  using sink
  by (simp add: writeFastQ_def QuadrupelIndex_match_sequence clip_length_def Let_def)

lemma process_undetermined:
  assumes "\<forall>e \<in> set (samples sh). \<not> fst (QuadrupelIndex_match (snd e) (seq r1) (seq r2) (seq x1) (seq x2))"
  shows "process sh r1 r2 x1 x2 =
     (if withUndetermined sh
      then (case map_of (outputHandles sh) ''Undetermined'' of
              None \<Rightarrow> Inl KeyError
            | Some (f1, f2) \<Rightarrow>
                Inr (sh\<lparr>undetermined := undetermined sh + 1,
                        outputHandles := AList.update ''Undetermined''
                          (f1 @ fastq_lines r1, f2 @ fastq_lines r2) (outputHandles sh)\<rparr>, r1, r2))
      else Inr (sh\<lparr>undetermined := undetermined sh + 1\<rparr>, r1, r2))"
  unfolding process_def process_samples_no_match [OF assms]
  by (simp add: writeFastQ_def Let_def split: option.splits)

lemma sum_list_bump:
  "i < length xs \<Longrightarrow> sum_list (xs[i := xs ! i + 1]) = sum_list xs + (1::int)"
  by (induction xs arbitrary: i) (auto split: nat.splits)

lemma map_of_update_present:
  "map_of al k \<noteq> None \<Longrightarrow> map_of (AList.update k' v al) k \<noteq> None"
  by (simp add: AList.update_conv')

lemma process_step:
  assumes "sinks_open sh"
  shows "\<exists>sh' r1' r2' i. process sh r1 r2 x1 x2 = Inr (sh', r1', r2')
           \<and> sinks_open sh'
           \<and> i < length (counters sh)
           \<and> counters sh' = (counters sh)[i := counters sh ! i + 1]
           \<and> map fst (samples sh') = map fst (samples sh)
           \<and> nameOrder sh' = nameOrder sh"
proof -
  let ?P = "\<lambda>q. fst (QuadrupelIndex_match q (seq r1) (seq r2) (seq x1) (seq x2))"
  from first_match_split [of "samples sh" ?P]
  show ?thesis
  proof (elim disjE exE conjE)
    assume none: "\<forall>e \<in> set (samples sh). \<not> ?P (snd e)"
    show ?thesis
    proof (cases "withUndetermined sh")
      case False
      let ?sh' = "sh\<lparr>undetermined := undetermined sh + 1\<rparr>"
      have "process sh r1 r2 x1 x2 = Inr (?sh', r1, r2)"
        using False by (simp add: process_undetermined [OF none])
      moreover have "sinks_open ?sh'"
        using assms by (simp add: sinks_open_def)
      moreover have "counters ?sh' = (counters sh)[0 := counters sh ! 0 + 1]"
        by (simp add: counters_def)
      ultimately show ?thesis
        by (intro exI [of _ ?sh'] exI [of _ r1] exI [of _ r2] exI [of _ 0]) (simp add: counters_def)
    next
      case True
      then obtain f1 f2 where f: "map_of (outputHandles sh) ''Undetermined'' = Some (f1, f2)"
        using assms by (auto simp: sinks_open_def)
      let ?sh' = "sh\<lparr>undetermined := undetermined sh + 1,
                      outputHandles := AList.update ''Undetermined''
                        (f1 @ fastq_lines r1, f2 @ fastq_lines r2) (outputHandles sh)\<rparr>"
      have "process sh r1 r2 x1 x2 = Inr (?sh', r1, r2)"
        using True f by (simp add: process_undetermined [OF none])
      moreover have "sinks_open ?sh'"
        using assms by (auto simp: sinks_open_def list_all_iff AList.update_conv')
      moreover have "counters ?sh' = (counters sh)[0 := counters sh ! 0 + 1]"
        by (simp add: counters_def)
      ultimately show ?thesis
        by (intro exI [of _ ?sh'] exI [of _ r1] exI [of _ r2] exI [of _ 0]) (simp add: counters_def)
    qed
  next
    fix pre nm q rest
    assume smp: "samples sh = pre @ (nm, q) # rest"
      and pre: "\<forall>e \<in> set pre. \<not> ?P (snd e)" and hit: "?P q"
    obtain f1 f2 where f: "map_of (outputHandles sh) nm = Some (f1, f2)"
      using assms smp by (auto simp: sinks_open_def list_all_iff)
    let ?q' = "snd (QuadrupelIndex_match q (seq r1) (seq r2) (seq x1) (seq x2))"
    let ?r1 = "r1\<lparr>seq := drop (clip_length (bc1 q)) (seq r1), quali := drop (clip_length (bc1 q)) (quali r1)\<rparr>"
    let ?r2 = "r2\<lparr>seq := drop (clip_length (bc2 q)) (seq r2), quali := drop (clip_length (bc2 q)) (quali r2)\<rparr>"
    let ?sh' = "sh\<lparr>samples := pre @ (nm, ?q') # rest,
                    outputHandles := AList.update nm (f1 @ fastq_lines ?r1, f2 @ fastq_lines ?r2)
                      (outputHandles sh)\<rparr>"
    have p: "process sh r1 r2 x1 x2 = Inr (?sh', ?r1, ?r2)"
      by (rule process_routed [OF smp pre hit f])
    have s: "sinks_open ?sh'"
      using assms smp by (auto simp: sinks_open_def list_all_iff AList.update_conv')
    have acc: "accepted_count ?q' = accepted_count q + 1"
      using hit by (simp add: QuadrupelIndex_match_accepted)
    have c: "counters ?sh' = (counters sh)[Suc (length pre) := counters sh ! Suc (length pre) + 1]"
      by (simp add: counters_def smp acc nth_append list_update_append)
    have l: "Suc (length pre) < length (counters sh)"
      by (simp add: counters_def smp)
    show ?thesis
      using p s c l smp
      by (intro exI [of _ ?sh'] exI [of _ ?r1] exI [of _ ?r2] exI [of _ "Suc (length pre)"]) simp
  qed
qed

section \<open>The constructor\<close>

lemma read_sheet_Cons:
  "read_sheet (line # rest) m smp ord =
     (if length line \<noteq> 5 then Inl ValueError
      else if \<not> list_all (\<lambda>letter. letter \<in> set ''ACTGN-'') (concat (tl line))
      then Inl AssertionError
      else read_sheet rest m
             (AList.update (line ! 0)
                (QuadrupelIndex_init (line ! 1) (line ! 2) (line ! 3) (line ! 4) m) smp)
             (ord @ [line ! 0]))"
  by (auto split: list.splits)




lemma update_preserves:
  assumes "\<forall>e \<in> set al. P (snd e)" and "P v"
  shows "\<forall>e \<in> set (AList.update k v al). P (snd e)"
  using assms by (induction al) auto

lemma read_sheet_step:
  assumes "read_sheet (line # sheet) m smp ord = Inr res"
  shows "read_sheet sheet m
           (AList.update (line ! 0)
              (QuadrupelIndex_init (line ! 1) (line ! 2) (line ! 3) (line ! 4) m) smp)
           (ord @ [line ! 0]) = Inr res"
  using assms unfolding read_sheet_Cons by (simp split: if_splits del: read_sheet.simps)

lemma read_sheet_ord:
  assumes "read_sheet sheet m smp ord = Inr (smp', ord')"
  shows "ord' = ord @ map (\<lambda>line. line ! 0) sheet"
  using assms
proof (induction sheet arbitrary: smp ord)
  case Nil
  then show ?case by simp
next
  case (Cons line sheet)
  from Cons.IH [OF read_sheet_step [OF Cons.prems]] show ?case by simp
qed

lemma QuadrupelIndex_init_accepted: "accepted_count (QuadrupelIndex_init s1 s2 b1 b2 m) = 0"
  by (simp add: accepted_count_def QuadrupelIndex_init_def Index_init_def)

lemma read_sheet_fresh:
  assumes "read_sheet sheet m smp ord = Inr (smp', ord')"
    and "\<forall>e \<in> set smp. accepted_count (snd e) = 0"
  shows "\<forall>e \<in> set smp'. accepted_count (snd e) = 0"
  using assms
proof (induction sheet arbitrary: smp ord)
  case Nil
  then show ?case by simp
next
  case (Cons line sheet)
  show ?case
  proof (rule Cons.IH [OF read_sheet_step [OF Cons.prems(1)]])
    show "\<forall>e \<in> set (AList.update (line ! 0)
              (QuadrupelIndex_init (line ! 1) (line ! 2) (line ! 3) (line ! 4) m) smp).
            accepted_count (snd e) = 0"
      using Cons.prems(2) QuadrupelIndex_init_accepted by (rule update_preserves)
  qed
qed

lemma update_fresh: "k \<notin> fst ` set al \<Longrightarrow> AList.update k v al = al @ [(k, v)]"
  by (induction al) auto

lemma read_sheet_distinct:
  assumes "read_sheet sheet m smp ord = Inr (smp', ord')"
    and "distinct (map fst smp @ map (\<lambda>line. line ! 0) sheet)"
  shows "smp' = smp @ map (\<lambda>line. (line ! 0,
                      QuadrupelIndex_init (line ! 1) (line ! 2) (line ! 3) (line ! 4) m)) sheet"
  using assms
proof (induction sheet arbitrary: smp ord)
  case Nil
  then show ?case by simp
next
  case (Cons line sheet)
  let ?q = "QuadrupelIndex_init (line ! 1) (line ! 2) (line ! 3) (line ! 4) m"
  have fresh: "line ! 0 \<notin> fst ` set smp" using Cons.prems(2) by auto
  have u: "AList.update (line ! 0) ?q smp = smp @ [(line ! 0, ?q)]"
    using fresh by (rule update_fresh)
  have d: "distinct (map fst (smp @ [(line ! 0, ?q)]) @ map (\<lambda>line. line ! 0) sheet)"
    using Cons.prems(2) by auto
  from Cons.IH [OF read_sheet_step [OF Cons.prems(1), unfolded u] d]
  show ?case by simp
qed

lemma open_handles_result:
  "open_handles fs tpl ns h =
     (if \<forall>nm \<in> set ns. handles_openable fs tpl nm
      then Inr (foldl (\<lambda>h nm. AList.update nm ([], []) h) h ns)
      else Inl OSError)"
  by (induction ns arbitrary: h) (auto simp: handles_openable_def Let_def)

lemma fresh_handles_keys:
  "fst ` set (foldl (\<lambda>h nm. AList.update nm ([], []) h) h0 ns) = fst ` set h0 \<union> set ns"
  for h0 :: "(string \<times> (string list \<times> string list)) list"
  by (induction ns arbitrary: h0) (auto simp: AList.dom_update)

lemma open_handles_present:
  assumes "open_handles fs tpl ns [] = Inr h"
  shows "map_of h n \<noteq> None \<longleftrightarrow> n \<in> set ns"
proof -
  have "h = foldl (\<lambda>h nm. AList.update nm ([], []) h) [] ns"
    using assms by (simp add: open_handles_result split: if_splits)
  then have "fst ` set h = set ns"
    using fresh_handles_keys [of "[]" ns] by simp
  then show ?thesis by (simp add: map_of_eq_None_iff)
qed


lemma sum_list_zero:
  "\<forall>x \<in> set xs. f x = (0::int) \<Longrightarrow> sum_list (map f xs) = 0"
  by (induction xs) auto



lemma SampleSheet_init_result:
  assumes "SampleSheet_init fs sheet tpl m wu = Inr sh"
  shows "sinks_open sh"
    and "sum_list (counters sh) = 0"
    and "nameOrder sh = map (\<lambda>line. line ! 0) sheet"
    and "distinct (map (\<lambda>line. line ! 0) sheet) \<Longrightarrow>
           samples sh = map (\<lambda>line. (line ! 0,
              QuadrupelIndex_init (line ! 1) (line ! 2) (line ! 3) (line ! 4) m)) sheet"
    and "withUndetermined sh = wu"
proof -
  from assms obtain smp ord h where r: "read_sheet sheet m [] [] = Inr (smp, ord)"
    and o: "open_handles fs tpl (if wu then map fst smp @ [''Undetermined''] else map fst smp) [] = Inr h"
    and sh: "sh = \<lparr>samples = smp, outputHandles = h,
               nameOrder = ord, withUndetermined = wu, undetermined = 0\<rparr>"
    by (auto simp: SampleSheet_init_def Let_def split: sum.splits prod.splits)
  show "sinks_open sh"
    by (simp add: sh sinks_open_def list_all_iff open_handles_present [OF o] del: not_None_eq)
  have "\<forall>e \<in> set smp. accepted_count (snd e) = 0"
    using read_sheet_fresh [OF r] by simp
  then have "sum_list (map (\<lambda>e. accepted_count (snd e)) smp) = 0" by (rule sum_list_zero)
  then show "sum_list (counters sh) = 0"
    by (simp add: sh counters_def case_prod_unfold)
  show "nameOrder sh = map (\<lambda>line. line ! 0) sheet"
    using read_sheet_ord [OF r] by (simp add: sh)
  show "samples sh = map (\<lambda>line. (line ! 0,
              QuadrupelIndex_init (line ! 1) (line ! 2) (line ! 3) (line ! 4) m)) sheet"
    if "distinct (map (\<lambda>line. line ! 0) sheet)"
    using read_sheet_distinct [OF r] that by (simp add: sh)
  show "withUndetermined sh = wu" by (simp add: sh)
qed

section \<open>The run and the report\<close>

lemma main_loop_run:
  assumes "sinks_open sh"
  shows "\<exists>sh' nr'. main_loop sh nr endAfter quads = Inr (sh', nr')
           \<and> sinks_open sh'
           \<and> sum_list (counters sh') = sum_list (counters sh) + (nr' - nr)
           \<and> nr' - nr = (case endAfter of None \<Rightarrow> int (length quads)
                          | Some n \<Rightarrow> min (int (length quads)) (max 1 (n - nr + 1)))
           \<and> map fst (samples sh') = map fst (samples sh)
           \<and> nameOrder sh' = nameOrder sh"
  using assms
proof (induction quads arbitrary: sh nr)
  case Nil
  then show ?case by (simp split: option.splits)
next
  case (Cons quad quads)
  obtain r1 r2 x1 x2 where quad: "quad = (r1, r2, x1, x2)" by (cases quad)
  from process_step [OF Cons.prems, of r1 r2 x1 x2]
  obtain sh1 r1' r2' i where p: "process sh r1 r2 x1 x2 = Inr (sh1, r1', r2')"
    and s1: "sinks_open sh1" and i: "i < length (counters sh)"
    and c1: "counters sh1 = (counters sh)[i := counters sh ! i + 1]"
    and n1: "map fst (samples sh1) = map fst (samples sh)" "nameOrder sh1 = nameOrder sh"
    by blast
  have sum1: "sum_list (counters sh1) = sum_list (counters sh) + 1"
    unfolding c1 using i by (rule sum_list_bump)
  show ?case
  proof (cases "\<exists>n. endAfter = Some n \<and> nr + 1 > n")
    case True
    then obtain n where n: "endAfter = Some n" "nr + 1 > n" by blast
    have "main_loop sh nr endAfter (quad # quads) = Inr (sh1, nr + 1)"
      using p n by (simp add: quad)
    then show ?thesis
      using s1 sum1 n n1 by (intro exI [of _ sh1] exI [of _ "nr + 1"]) simp
  next
    case False
    from Cons.IH [OF s1, of "nr + 1"]
    obtain sh' nr' where ih: "main_loop sh1 (nr + 1) endAfter quads = Inr (sh', nr')"
      "sinks_open sh'" "sum_list (counters sh') = sum_list (counters sh1) + (nr' - (nr + 1))"
      "nr' - (nr + 1) = (case endAfter of None \<Rightarrow> int (length quads)
                          | Some n \<Rightarrow> min (int (length quads)) (max 1 (n - (nr + 1) + 1)))"
      "map fst (samples sh') = map fst (samples sh1)" "nameOrder sh' = nameOrder sh1"
      by blast
    have m: "main_loop sh nr endAfter (quad # quads) = Inr (sh', nr')"
      using p False ih(1) by (auto simp: quad split: option.splits)
    have cnt: "nr' - nr = (case endAfter of None \<Rightarrow> int (length (quad # quads))
                          | Some n \<Rightarrow> min (int (length (quad # quads))) (max 1 (n - nr + 1)))"
      using ih(4) False by (auto split: option.splits)
    show ?thesis
      using m ih(2,3,5,6) sum1 cnt n1
      by (intro exI [of _ sh'] exI [of _ nr']) simp
  qed
qed

lemma reportStats_total_lookup:
  assumes "\<forall>n \<in> set ns. map_of smp n \<noteq> None"
  shows "reportStats_total smp ns =
           Inr (sum_list (map (\<lambda>n. accepted_count (the (map_of smp n))) ns))"
  using assms by (induction ns) auto

lemma reportStats_total_keys:
  assumes "distinct (map fst smp)"
  shows "reportStats_total smp (map fst smp) = Inr (sum_list (map (\<lambda>(nm, qi). accepted_count qi) smp))"
proof -
  have l: "map_of smp (fst e) = Some (snd e)" if "e \<in> set smp" for e
    using assms that by (cases e) simp
  have "\<forall>n \<in> set (map fst smp). map_of smp n \<noteq> None" using l by auto
  then have "reportStats_total smp (map fst smp) =
      Inr (sum_list (map (\<lambda>n. accepted_count (the (map_of smp n))) (map fst smp)))"
    by (rule reportStats_total_lookup)
  also have "map (\<lambda>n. accepted_count (the (map_of smp n))) (map fst smp) =
      map (\<lambda>(nm, qi). accepted_count qi) smp"
    using l by (auto simp: case_prod_unfold)
  finally show ?thesis .
qed

section \<open>Routing claims\<close>

lemma example_paths:
  "py_replace ''%r%'' ''1'' (py_replace ''%name%'' ''S1'' example_template) = ''out/S1_R1.fastq.gz''"
  "py_replace ''%r%'' ''2'' (py_replace ''%name%'' ''S1'' example_template) = ''out/S1_R2.fastq.gz''"
  "dirname ''out/S1_R1.fastq.gz'' = ''out''"
  by (simp_all add: example_template_def dirname_def)

lemma example_openable:
  "handles_openable example_fs example_template ''S1''"
  "handles_openable example_fs example_template ''S2''"
  "handles_openable example_fs example_template ''Undetermined''"
  by (simp_all add: handles_openable_def example_fs_def example_template_def dirname_def)

lemma example_state_init:
  "SampleSheet_init example_fs example_sheet example_template 0 True = Inr example_state"
  by (simp add: SampleSheet_init_def example_sheet_def example_state_def open_handles_result
      example_openable)

lemma example_state_sinks: "sinks_open example_state"
  using SampleSheet_init_result(1) [OF example_state_init] .

lemma example_read_fields [simp]:
  "name (example_read s) = ''@r''" "seq (example_read s) = s"
  "quali (example_read s) = replicate (length s) CHR ''I''"
  by (simp_all add: example_read_def)

lemma update_present_keys:
  "map_of al k = Some v \<Longrightarrow> map fst (AList.update k w al) = map fst al"
  by (auto simp: AList.update_keys dest: map_of_SomeD intro: rev_image_eqI)

lemma forget_hits_match:
  "fst (QuadrupelIndex_match (forget_hits q) a b c d) = fst (QuadrupelIndex_match q a b c d)"
  "forget_hits (snd (QuadrupelIndex_match q a b c d)) = forget_hits q"
  by (simp_all add: QuadrupelIndex_match_def forget_hits_def Index_match_def recordHit_def Let_def)

lemma forget_hits_init:
  "forget_hits (QuadrupelIndex_init s1 s2 b1 b2 m) = QuadrupelIndex_init s1 s2 b1 b2 m"
  by (simp add: forget_hits_def QuadrupelIndex_init_def Index_init_def)

lemma forget_hits_barcodes:
  assumes "forget_hits q = QuadrupelIndex_init s1 s2 b1 b2 m"
  shows "sequence (bc1 q) = b1" "sequence (bc2 q) = b2"
proof -
  have "sequence (bc1 (forget_hits q)) = b1" "sequence (bc2 (forget_hits q)) = b2"
    unfolding assms by (simp_all add: QuadrupelIndex_init_def Index_init_def)
  then show "sequence (bc1 q) = b1" "sequence (bc2 q) = b2"
    by (simp_all add: forget_hits_def)
qed

lemma process_samples_signatures:
  "map (\<lambda>(nm, qi). (nm, forget_hits qi)) (snd (process_samples smp a b c d)) =
     map (\<lambda>(nm, qi). (nm, forget_hits qi)) smp"
proof (induction smp)
  case Nil
  then show ?case by simp
next
  case (Cons e smp)
  obtain nm q where e: "e = (nm, q)" by (cases e)
  show ?case
    using Cons.IH unfolding e
    by (simp add: process_samples_Cons forget_hits_match del: process_samples.simps)
qed

lemma process_samples_of_process:
  assumes "process sh r1 r2 x1 x2 = Inr (sh', r1', r2')"
  shows "samples sh' = snd (process_samples (samples sh) (seq r1) (seq r2) (seq x1) (seq x2))"
  using assms
  by (auto simp: process_def writeFastQ_def Let_def
      split: prod.splits option.splits sum.splits if_splits)

lemma process_keeps_sheet_state:
  assumes "sheet_state sheet m sh" and "process sh r1 r2 x1 x2 = Inr (sh', r1', r2')"
  shows "sheet_state sheet m sh'"
  using assms(1)
  unfolding sheet_state_def process_samples_of_process [OF assms(2)] process_samples_signatures .

lemma SampleSheet_init_sheet_state:
  assumes "SampleSheet_init fs sheet tpl m wu = Inr sh0"
    and "distinct (map (\<lambda>line. line ! 0) sheet)"
  shows "sheet_state sheet m sh0"
  unfolding sheet_state_def SampleSheet_init_result(4) [OF assms]
  by (simp add: forget_hits_init comp_def)

text \<open>
  Claim C2, as the code has it. For a sheet whose sample names are pairwise distinct the
  constructor stores the samples in the order of the lines of the sheet, and every call
  of \<open>process\<close> leaves them in that order with their patterns and budget (only hit
  tables change). In such a state, whenever some line of the sheet matches the quadruple,
  whatever the lines after it are and whether or not they match as well, \<open>process\<close>
  returns normally and
  \<^item> only the sample of the first matching line has its hits recorded; every other
    sample, before or after it, is exactly as it was;
  \<^item> the undetermined counter is unchanged;
  \<^item> the pair of handles of that sample has received, once, the four lines of the read-1
    and of the read-2 record (name, sequence and quality with the sample's barcode
    lengths clipped, each ended by a newline), and every other pair of handles is as
    before.
  A sheet that repeats a name is outside this statement: the dictionary keeps the name at
  the place of its first line with the signature of its last line.
\<close>

theorem first_match_wins:
  assumes "sheet_state sheet m sh"
    and "sheet = before @ line # after"
    and "\<forall>l \<in> set before.
           \<not> fst (QuadrupelIndex_match (QuadrupelIndex_init (l ! 1) (l ! 2) (l ! 3) (l ! 4) m)
                   (seq r1) (seq r2) (seq x1) (seq x2))"
    and "fst (QuadrupelIndex_match
                (QuadrupelIndex_init (line ! 1) (line ! 2) (line ! 3) (line ! 4) m)
                (seq r1) (seq r2) (seq x1) (seq x2))"
    and "sinks_open sh"
  shows "(\<exists>sh' r1' r2' f1 f2 q.
            process sh r1 r2 x1 x2 = Inr (sh', r1', r2')
          \<and> samples sh ! length before = (line ! 0, q)
          \<and> samples sh' =
              (samples sh)[length before :=
                 (line ! 0, snd (QuadrupelIndex_match q (seq r1) (seq r2) (seq x1) (seq x2)))]
          \<and> undetermined sh' = undetermined sh
          \<and> name r1' = name r1 \<and> name r2' = name r2
          \<and> seq r1' = drop (if line ! 3 = ''-'' then 0 else length (line ! 3)) (seq r1)
          \<and> quali r1' = drop (if line ! 3 = ''-'' then 0 else length (line ! 3)) (quali r1)
          \<and> seq r2' = drop (if line ! 4 = ''-'' then 0 else length (line ! 4)) (seq r2)
          \<and> quali r2' = drop (if line ! 4 = ''-'' then 0 else length (line ! 4)) (quali r2)
          \<and> map_of (outputHandles sh) (line ! 0) = Some (f1, f2)
          \<and> map_of (outputHandles sh') (line ! 0) =
               Some (f1 @ [name r1' @ [CHR 0x0A], seq r1' @ [CHR 0x0A], ''+'' @ [CHR 0x0A],
                           quali r1' @ [CHR 0x0A]],
                     f2 @ [name r2' @ [CHR 0x0A], seq r2' @ [CHR 0x0A], ''+'' @ [CHR 0x0A],
                           quali r2' @ [CHR 0x0A]])
          \<and> (\<forall>n. n \<noteq> line ! 0 \<longrightarrow> map_of (outputHandles sh') n = map_of (outputHandles sh) n)
          \<and> map fst (outputHandles sh') = map fst (outputHandles sh)
          \<and> sheet_state sheet m sh' \<and> sinks_open sh')
       \<and> (\<forall>fs tpl wu sh0.
            SampleSheet_init fs sheet tpl m wu = Inr sh0 \<and> distinct (map (\<lambda>l. l ! 0) sheet) \<longrightarrow>
            sheet_state sheet m sh0 \<and> sinks_open sh0)
       \<and> (\<forall>s a b c d s' a' b'.
            sheet_state sheet m s \<and> process s a b c d = Inr (s', a', b') \<longrightarrow> sheet_state sheet m s')"
proof -
  let ?F = "\<lambda>(nm, qi). (nm, forget_hits qi)"
  let ?M = "\<lambda>l. (l ! 0, QuadrupelIndex_init (l ! 1) (l ! 2) (l ! 3) (l ! 4) m)"
  let ?P = "\<lambda>q. fst (QuadrupelIndex_match q (seq r1) (seq r2) (seq x1) (seq x2))"
  have "map ?F (samples sh) = map ?M before @ ?M line # map ?M after"
    using assms(1,2) by (simp add: sheet_state_def)
  then obtain pre vs where "samples sh = pre @ vs" and mpre: "map ?F pre = map ?M before"
    and "map ?F vs = ?M line # map ?M after"
    by (auto simp: map_eq_append_conv)
  then obtain e rest where smp0: "samples sh = pre @ e # rest" and me: "?F e = ?M line"
    and mrest: "map ?F rest = map ?M after"
    by (auto simp: map_eq_Cons_conv)
  obtain nm q where e: "e = (nm, q)" by (cases e)
  have nm: "nm = line ! 0"
    and fq: "forget_hits q = QuadrupelIndex_init (line ! 1) (line ! 2) (line ! 3) (line ! 4) m"
    using me e by simp_all
  have smp: "samples sh = pre @ (line ! 0, q) # rest" using smp0 e nm by simp
  have len: "length pre = length before"
    using arg_cong [OF mpre, of length] by simp
  have pre: "\<forall>e \<in> set pre. \<not> ?P (snd e)"
  proof
    fix e' assume "e' \<in> set pre"
    then have "?F e' \<in> set (map ?M before)" unfolding mpre [symmetric] by simp
    then obtain l where l: "l \<in> set before" "?F e' = ?M l" by auto
    obtain n' q' where e': "e' = (n', q')" by (cases e')
    have "forget_hits q' = QuadrupelIndex_init (l ! 1) (l ! 2) (l ! 3) (l ! 4) m"
      using l(2) e' by simp
    then have "?P q' = ?P (QuadrupelIndex_init (l ! 1) (l ! 2) (l ! 3) (l ! 4) m)"
      using forget_hits_match(1) [of q'] by simp
    then show "\<not> ?P (snd e')" using assms(3) l(1) e' by simp
  qed
  have hit: "?P q"
    using assms(4) forget_hits_match(1) [of q] fq by simp
  obtain f1 f2 where f: "map_of (outputHandles sh) (line ! 0) = Some (f1, f2)"
    using assms(5) smp by (auto simp: sinks_open_def list_all_iff)
  have c1: "clip_length (bc1 q) = (if line ! 3 = ''-'' then 0 else length (line ! 3))"
    and c2: "clip_length (bc2 q) = (if line ! 4 = ''-'' then 0 else length (line ! 4))"
    using forget_hits_barcodes [OF fq] by (simp_all add: clip_length_def)
  let ?q' = "snd (QuadrupelIndex_match q (seq r1) (seq r2) (seq x1) (seq x2))"
  let ?r1 = "r1\<lparr>seq := drop (clip_length (bc1 q)) (seq r1), quali := drop (clip_length (bc1 q)) (quali r1)\<rparr>"
  let ?r2 = "r2\<lparr>seq := drop (clip_length (bc2 q)) (seq r2), quali := drop (clip_length (bc2 q)) (quali r2)\<rparr>"
  let ?sh' = "sh\<lparr>samples := pre @ (line ! 0, ?q') # rest,
                  outputHandles := AList.update (line ! 0) (f1 @ fastq_lines ?r1, f2 @ fastq_lines ?r2)
                    (outputHandles sh)\<rparr>"
  have p: "process sh r1 r2 x1 x2 = Inr (?sh', ?r1, ?r2)"
    by (rule process_routed [OF smp pre hit f])
  have at: "samples sh ! length before = (line ! 0, q)"
    unfolding smp len [symmetric] by simp
  have upd: "samples ?sh' = (samples sh)[length before := (line ! 0, ?q')]"
    unfolding smp len [symmetric] by simp
  have k: "map fst (outputHandles ?sh') = map fst (outputHandles sh)"
    using f by (simp add: update_present_keys)
  have w: "map_of (outputHandles ?sh') (line ! 0) =
             Some (f1 @ [name ?r1 @ [CHR 0x0A], seq ?r1 @ [CHR 0x0A], ''+'' @ [CHR 0x0A],
                         quali ?r1 @ [CHR 0x0A]],
                   f2 @ [name ?r2 @ [CHR 0x0A], seq ?r2 @ [CHR 0x0A], ''+'' @ [CHR 0x0A],
                         quali ?r2 @ [CHR 0x0A]])"
    by (simp add: AList.update_conv' fastq_lines_def)
  have others: "\<forall>n. n \<noteq> line ! 0 \<longrightarrow> map_of (outputHandles ?sh') n = map_of (outputHandles sh) n"
    by (simp add: AList.update_conv')
  have st: "sheet_state sheet m ?sh'"
    using assms(1) p by (rule process_keeps_sheet_state)
  have so: "sinks_open ?sh'"
    using assms(5) smp by (auto simp: sinks_open_def list_all_iff AList.update_conv')
  have part1: "\<exists>sh' r1' r2' f1 f2 q.
            process sh r1 r2 x1 x2 = Inr (sh', r1', r2')
          \<and> samples sh ! length before = (line ! 0, q)
          \<and> samples sh' =
              (samples sh)[length before :=
                 (line ! 0, snd (QuadrupelIndex_match q (seq r1) (seq r2) (seq x1) (seq x2)))]
          \<and> undetermined sh' = undetermined sh
          \<and> name r1' = name r1 \<and> name r2' = name r2
          \<and> seq r1' = drop (if line ! 3 = ''-'' then 0 else length (line ! 3)) (seq r1)
          \<and> quali r1' = drop (if line ! 3 = ''-'' then 0 else length (line ! 3)) (quali r1)
          \<and> seq r2' = drop (if line ! 4 = ''-'' then 0 else length (line ! 4)) (seq r2)
          \<and> quali r2' = drop (if line ! 4 = ''-'' then 0 else length (line ! 4)) (quali r2)
          \<and> map_of (outputHandles sh) (line ! 0) = Some (f1, f2)
          \<and> map_of (outputHandles sh') (line ! 0) =
               Some (f1 @ [name r1' @ [CHR 0x0A], seq r1' @ [CHR 0x0A], ''+'' @ [CHR 0x0A],
                           quali r1' @ [CHR 0x0A]],
                     f2 @ [name r2' @ [CHR 0x0A], seq r2' @ [CHR 0x0A], ''+'' @ [CHR 0x0A],
                           quali r2' @ [CHR 0x0A]])
          \<and> (\<forall>n. n \<noteq> line ! 0 \<longrightarrow> map_of (outputHandles sh') n = map_of (outputHandles sh) n)
          \<and> map fst (outputHandles sh') = map fst (outputHandles sh)
          \<and> sheet_state sheet m sh' \<and> sinks_open sh'"
    apply (rule exI [of _ ?sh'], rule exI [of _ ?r1], rule exI [of _ ?r2])
    apply (rule exI [of _ f1], rule exI [of _ f2], rule exI [of _ q])
    apply (intro conjI)
    using p at upd f w others k st so c1 c2 apply simp_all
    done
  have part2: "sheet_state sheet m sh0 \<and> sinks_open sh0"
    if "SampleSheet_init fs sheet tpl m wu = Inr sh0" "distinct (map (\<lambda>l. l ! 0) sheet)"
    for fs tpl wu sh0
    using SampleSheet_init_sheet_state [OF that] SampleSheet_init_result(1) [OF that(1)] by simp
  have part3: "sheet_state sheet m s'"
    if "sheet_state sheet m s" "process s a b c d = Inr (s', a', b')" for s a b c d s' a' b'
    using that by (rule process_keeps_sheet_state)
  show ?thesis using part1 part2 part3 by blast
qed

theorem first_match_wins_witness:
  "SampleSheet_init example_fs example_sheet example_template 0 True = Inr example_state
   \<and> distinct (map (\<lambda>l. l ! 0) example_sheet)
   \<and> sheet_state example_sheet 0 example_state
   \<and> fst (QuadrupelIndex_match (QuadrupelIndex_init ''AAAA'' ''CCCC'' ''GGG'' ''TTT'' 0)
        ''GGGACGT'' ''TTTGGCA'' ''AAAA'' ''CCCC'')
   \<and> fst (QuadrupelIndex_match (QuadrupelIndex_init ''AAAA'' ''CCCC'' ''-'' ''-'' 0)
        ''GGGACGT'' ''TTTGGCA'' ''AAAA'' ''CCCC'')
   \<and> process example_state (example_read ''GGGACGT'') (example_read ''TTTGGCA'')
        (example_read ''AAAA'') (example_read ''CCCC'') =
      Inr (example_state
             \<lparr>samples :=
                [(''S1'', \<lparr>i1 = \<lparr>sequence = ''AAAA'', mismatches = 0, hits = [(''AAAA'', 1)]\<rparr>,
                          i2 = \<lparr>sequence = ''CCCC'', mismatches = 0, hits = [(''CCCC'', 1)]\<rparr>,
                          bc1 = \<lparr>sequence = ''GGG'', mismatches = 0, hits = [(''GGG'', 1)]\<rparr>,
                          bc2 = \<lparr>sequence = ''TTT'', mismatches = 0, hits = [(''TTT'', 1)]\<rparr>\<rparr>),
                 (''S2'', QuadrupelIndex_init ''AAAA'' ''CCCC'' ''-'' ''-'' 0)],
              outputHandles :=
                [(''S1'', [''@r'' @ [CHR 0x0A], ''ACGT'' @ [CHR 0x0A], ''+'' @ [CHR 0x0A], ''IIII'' @ [CHR 0x0A]],
                          [''@r'' @ [CHR 0x0A], ''GGCA'' @ [CHR 0x0A], ''+'' @ [CHR 0x0A], ''IIII'' @ [CHR 0x0A]]),
                 (''S2'', [], []), (''Undetermined'', [], [])]\<rparr>,
           \<lparr>name = ''@r'', seq = ''ACGT'', quali = ''IIII''\<rparr>,
           \<lparr>name = ''@r'', seq = ''GGCA'', quali = ''IIII''\<rparr>)"
proof -
  let ?q1 = "QuadrupelIndex_init ''AAAA'' ''CCCC'' ''GGG'' ''TTT'' 0"
  let ?q2 = "QuadrupelIndex_init ''AAAA'' ''CCCC'' ''-'' ''-'' 0"
  let ?l1 = "[''S1'', ''AAAA'', ''CCCC'', ''GGG'', ''TTT'']"
  let ?l2 = "[''S2'', ''AAAA'', ''CCCC'', ''-'', ''-'']"
  have dist: "distinct (map (\<lambda>l. l ! 0) example_sheet)"
    by (simp add: example_sheet_def)
  have st: "sheet_state example_sheet 0 example_state"
    using SampleSheet_init_sheet_state [OF example_state_init dist] .
  have dec: "example_sheet = [] @ ?l1 # [?l2]"
    by (simp add: example_sheet_def)
  have b: "\<forall>l \<in> set []. \<not> fst (QuadrupelIndex_match
      (QuadrupelIndex_init (l ! 1) (l ! 2) (l ! 3) (l ! 4) 0) (seq (example_read ''GGGACGT''))
      (seq (example_read ''TTTGGCA'')) (seq (example_read ''AAAA'')) (seq (example_read ''CCCC'')))"
    by simp
  have c: "fst (QuadrupelIndex_match ?q1 ''GGGACGT'' ''TTTGGCA'' ''AAAA'' ''CCCC'')"
    by (simp add: QuadrupelIndex_match_def QuadrupelIndex_init_def Index_init_def Index_match_def
        nrM_def)
  have c': "fst (QuadrupelIndex_match
      (QuadrupelIndex_init (?l1 ! 1) (?l1 ! 2) (?l1 ! 3) (?l1 ! 4) 0) (seq (example_read ''GGGACGT''))
      (seq (example_read ''TTTGGCA'')) (seq (example_read ''AAAA'')) (seq (example_read ''CCCC'')))"
    using c by simp
  have d: "fst (QuadrupelIndex_match ?q2 ''GGGACGT'' ''TTTGGCA'' ''AAAA'' ''CCCC'')"
    by (simp add: QuadrupelIndex_match_def QuadrupelIndex_init_def Index_init_def Index_match_def
        nrM_def)
  have q': "snd (QuadrupelIndex_match ?q1 ''GGGACGT'' ''TTTGGCA'' ''AAAA'' ''CCCC'') =
      \<lparr>i1 = \<lparr>sequence = ''AAAA'', mismatches = 0, hits = [(''AAAA'', 1)]\<rparr>,
       i2 = \<lparr>sequence = ''CCCC'', mismatches = 0, hits = [(''CCCC'', 1)]\<rparr>,
       bc1 = \<lparr>sequence = ''GGG'', mismatches = 0, hits = [(''GGG'', 1)]\<rparr>,
       bc2 = \<lparr>sequence = ''TTT'', mismatches = 0, hits = [(''TTT'', 1)]\<rparr>\<rparr>"
    by (simp add: QuadrupelIndex_match_def QuadrupelIndex_init_def Index_init_def Index_match_def
        nrM_def recordHit_def)
  from first_match_wins [OF st dec b c' example_state_sinks, THEN conjunct1]
  obtain sh' r1' r2' where
    p: "process example_state (example_read ''GGGACGT'') (example_read ''TTTGGCA'')
          (example_read ''AAAA'') (example_read ''CCCC'') = Inr (sh', r1', r2')"
    by (elim exE conjE)
  have a: "samples example_state = [] @ (''S1'', ?q1) # [(''S2'', ?q2)]"
    by (simp add: example_state_def)
  have b0: "\<forall>e \<in> set []. \<not> fst (QuadrupelIndex_match (snd e) (seq (example_read ''GGGACGT''))
      (seq (example_read ''TTTGGCA'')) (seq (example_read ''AAAA'')) (seq (example_read ''CCCC'')))"
    by simp
  have c0: "fst (QuadrupelIndex_match ?q1 (seq (example_read ''GGGACGT''))
      (seq (example_read ''TTTGGCA'')) (seq (example_read ''AAAA'')) (seq (example_read ''CCCC'')))"
    using c by simp
  have f: "map_of (outputHandles example_state) ''S1'' = Some ([], [])"
    by (simp add: example_state_def)
  have e: "process example_state (example_read ''GGGACGT'') (example_read ''TTTGGCA'')
        (example_read ''AAAA'') (example_read ''CCCC'') =
      Inr (example_state
             \<lparr>samples := [(''S1'', snd (QuadrupelIndex_match ?q1 ''GGGACGT'' ''TTTGGCA'' ''AAAA'' ''CCCC'')),
                         (''S2'', ?q2)],
              outputHandles :=
                [(''S1'', [''@r'' @ [CHR 0x0A], ''ACGT'' @ [CHR 0x0A], ''+'' @ [CHR 0x0A], ''IIII'' @ [CHR 0x0A]],
                          [''@r'' @ [CHR 0x0A], ''GGCA'' @ [CHR 0x0A], ''+'' @ [CHR 0x0A], ''IIII'' @ [CHR 0x0A]]),
                 (''S2'', [], []), (''Undetermined'', [], [])]\<rparr>,
           \<lparr>name = ''@r'', seq = ''ACGT'', quali = ''IIII''\<rparr>,
           \<lparr>name = ''@r'', seq = ''GGCA'', quali = ''IIII''\<rparr>)"
    using process_routed [OF a b0 c0 f]
    by (simp add: clip_length_def QuadrupelIndex_init_def Index_init_def example_read_def fastq_lines_def)
       (simp add: example_state_def)
  show ?thesis using p by (intro conjI) (rule example_state_init dist st c d e [unfolded q'])+
qed

text \<open>The claim as stated fails on a sheet that repeats a name. In the sheet
  \<open>S1 AAAA CCCC - -\<close>, \<open>S2 TTTT CCCC - -\<close>, \<open>S1 TTTT CCCC GGG -\<close> the quadruple with
  index 1 \<open>TTTT\<close> is not matched by the first line and is matched by the second and by the
  third. The dictionary keeps \<open>S1\<close> in first place with the signature of the third line,
  so the record goes to \<open>S1\<close>, with \<open>GGG\<close> clipped, and not to \<open>S2\<close>, whose line is the
  earliest matching one.\<close>

theorem first_match_repeated_name_counterexample:
  "SampleSheet_init example_fs
     [[''S1'', ''AAAA'', ''CCCC'', ''-'', ''-''], [''S2'', ''TTTT'', ''CCCC'', ''-'', ''-''],
      [''S1'', ''TTTT'', ''CCCC'', ''GGG'', ''-'']] example_template 0 False =
     Inr \<lparr>samples = [(''S1'', QuadrupelIndex_init ''TTTT'' ''CCCC'' ''GGG'' ''-'' 0),
                     (''S2'', QuadrupelIndex_init ''TTTT'' ''CCCC'' ''-'' ''-'' 0)],
          outputHandles = [(''S1'', [], []), (''S2'', [], [])],
          nameOrder = [''S1'', ''S2'', ''S1''], withUndetermined = False, undetermined = 0\<rparr>
   \<and> \<not> fst (QuadrupelIndex_match (QuadrupelIndex_init ''AAAA'' ''CCCC'' ''-'' ''-'' 0)
          ''GGGACGT'' ''TTTGGCA'' ''TTTT'' ''CCCC'')
   \<and> fst (QuadrupelIndex_match (QuadrupelIndex_init ''TTTT'' ''CCCC'' ''-'' ''-'' 0)
          ''GGGACGT'' ''TTTGGCA'' ''TTTT'' ''CCCC'')
   \<and> fst (QuadrupelIndex_match (QuadrupelIndex_init ''TTTT'' ''CCCC'' ''GGG'' ''-'' 0)
          ''GGGACGT'' ''TTTGGCA'' ''TTTT'' ''CCCC'')
   \<and> process
        \<lparr>samples = [(''S1'', QuadrupelIndex_init ''TTTT'' ''CCCC'' ''GGG'' ''-'' 0),
                    (''S2'', QuadrupelIndex_init ''TTTT'' ''CCCC'' ''-'' ''-'' 0)],
         outputHandles = [(''S1'', [], []), (''S2'', [], [])],
         nameOrder = [''S1'', ''S2'', ''S1''], withUndetermined = False, undetermined = 0\<rparr>
        (example_read ''GGGACGT'') (example_read ''TTTGGCA'')
        (example_read ''TTTT'') (example_read ''CCCC'') =
      Inr (\<lparr>samples =
                [(''S1'', \<lparr>i1 = \<lparr>sequence = ''TTTT'', mismatches = 0, hits = [(''TTTT'', 1)]\<rparr>,
                          i2 = \<lparr>sequence = ''CCCC'', mismatches = 0, hits = [(''CCCC'', 1)]\<rparr>,
                          bc1 = \<lparr>sequence = ''GGG'', mismatches = 0, hits = [(''GGG'', 1)]\<rparr>,
                          bc2 = \<lparr>sequence = ''-'', mismatches = 0, hits = [(''T'', 1)]\<rparr>\<rparr>),
                 (''S2'', QuadrupelIndex_init ''TTTT'' ''CCCC'' ''-'' ''-'' 0)],
             outputHandles =
                [(''S1'', [''@r'' @ [CHR 0x0A], ''ACGT'' @ [CHR 0x0A], ''+'' @ [CHR 0x0A], ''IIII'' @ [CHR 0x0A]],
                          [''@r'' @ [CHR 0x0A], ''TTTGGCA'' @ [CHR 0x0A], ''+'' @ [CHR 0x0A], ''IIIIIII'' @ [CHR 0x0A]]),
                 (''S2'', [], [])],
             nameOrder = [''S1'', ''S2'', ''S1''], withUndetermined = False, undetermined = 0\<rparr>,
           \<lparr>name = ''@r'', seq = ''ACGT'', quali = ''IIII''\<rparr>,
           \<lparr>name = ''@r'', seq = ''TTTGGCA'', quali = ''IIIIIII''\<rparr>)"
proof -
  let ?q1 = "QuadrupelIndex_init ''TTTT'' ''CCCC'' ''GGG'' ''-'' 0"
  let ?q2 = "QuadrupelIndex_init ''TTTT'' ''CCCC'' ''-'' ''-'' 0"
  let ?st = "\<lparr>samples = [(''S1'', ?q1), (''S2'', ?q2)],
         outputHandles = [(''S1'', [], []), (''S2'', [], [])],
         nameOrder = [''S1'', ''S2'', ''S1''], withUndetermined = False, undetermined = 0\<rparr>"
  have i: "SampleSheet_init example_fs
     [[''S1'', ''AAAA'', ''CCCC'', ''-'', ''-''], [''S2'', ''TTTT'', ''CCCC'', ''-'', ''-''],
      [''S1'', ''TTTT'', ''CCCC'', ''GGG'', ''-'']] example_template 0 False = Inr ?st"
    by (simp add: SampleSheet_init_def open_handles_result example_openable)
  have n1: "\<not> fst (QuadrupelIndex_match (QuadrupelIndex_init ''AAAA'' ''CCCC'' ''-'' ''-'' 0)
          ''GGGACGT'' ''TTTGGCA'' ''TTTT'' ''CCCC'')"
    by (simp add: QuadrupelIndex_match_def QuadrupelIndex_init_def Index_init_def Index_match_def
        nrM_def)
  have m2: "fst (QuadrupelIndex_match ?q2 ''GGGACGT'' ''TTTGGCA'' ''TTTT'' ''CCCC'')"
    by (simp add: QuadrupelIndex_match_def QuadrupelIndex_init_def Index_init_def Index_match_def
        nrM_def)
  have m3: "fst (QuadrupelIndex_match ?q1 ''GGGACGT'' ''TTTGGCA'' ''TTTT'' ''CCCC'')"
    by (simp add: QuadrupelIndex_match_def QuadrupelIndex_init_def Index_init_def Index_match_def
        nrM_def)
  have q': "snd (QuadrupelIndex_match ?q1 ''GGGACGT'' ''TTTGGCA'' ''TTTT'' ''CCCC'') =
      \<lparr>i1 = \<lparr>sequence = ''TTTT'', mismatches = 0, hits = [(''TTTT'', 1)]\<rparr>,
       i2 = \<lparr>sequence = ''CCCC'', mismatches = 0, hits = [(''CCCC'', 1)]\<rparr>,
       bc1 = \<lparr>sequence = ''GGG'', mismatches = 0, hits = [(''GGG'', 1)]\<rparr>,
       bc2 = \<lparr>sequence = ''-'', mismatches = 0, hits = [(''T'', 1)]\<rparr>\<rparr>"
    by (simp add: QuadrupelIndex_match_def QuadrupelIndex_init_def Index_init_def Index_match_def
        nrM_def recordHit_def)
  have a: "samples ?st = [] @ (''S1'', ?q1) # [(''S2'', ?q2)]"
    by simp
  have b0: "\<forall>e \<in> set []. \<not> fst (QuadrupelIndex_match (snd e) (seq (example_read ''GGGACGT''))
      (seq (example_read ''TTTGGCA'')) (seq (example_read ''TTTT'')) (seq (example_read ''CCCC'')))"
    by simp
  have c0: "fst (QuadrupelIndex_match ?q1 (seq (example_read ''GGGACGT''))
      (seq (example_read ''TTTGGCA'')) (seq (example_read ''TTTT'')) (seq (example_read ''CCCC'')))"
    using m3 by simp
  have f: "map_of (outputHandles ?st) ''S1'' = Some ([], [])"
    by simp
  have e: "process ?st (example_read ''GGGACGT'') (example_read ''TTTGGCA'')
        (example_read ''TTTT'') (example_read ''CCCC'') =
      Inr (\<lparr>samples = [(''S1'', snd (QuadrupelIndex_match ?q1 ''GGGACGT'' ''TTTGGCA'' ''TTTT'' ''CCCC'')),
                        (''S2'', ?q2)],
             outputHandles =
                [(''S1'', [''@r'' @ [CHR 0x0A], ''ACGT'' @ [CHR 0x0A], ''+'' @ [CHR 0x0A], ''IIII'' @ [CHR 0x0A]],
                          [''@r'' @ [CHR 0x0A], ''TTTGGCA'' @ [CHR 0x0A], ''+'' @ [CHR 0x0A], ''IIIIIII'' @ [CHR 0x0A]]),
                 (''S2'', [], [])],
             nameOrder = [''S1'', ''S2'', ''S1''], withUndetermined = False, undetermined = 0\<rparr>,
           \<lparr>name = ''@r'', seq = ''ACGT'', quali = ''IIII''\<rparr>,
           \<lparr>name = ''@r'', seq = ''TTTGGCA'', quali = ''IIIIIII''\<rparr>)"
    using process_routed [OF a b0 c0 f]
    by (simp add: clip_length_def QuadrupelIndex_init_def Index_init_def example_read_def fastq_lines_def)
  show ?thesis by (intro conjI) (rule i n1 m2 m3 e [unfolded q'])+
qed

text \<open>
  Claim C4, as the code has it. When the first matching sample is \<open>nm\<close> with barcode
  signatures \<open>bc1\<close> and \<open>bc2\<close>, the clip of read 1 is the length of the barcode-1 pattern
  (0 for the pattern \<open>"-"\<close>) and likewise for read 2. The records come back, and are
  written to the handles of \<open>nm\<close>, with sequence and quality each cut by the slice
  \<open>s[clip:]\<close>: what is removed is the leading part of the original of length
  \<open>min clip (len s)\<close>, and what is left has length \<open>max 0 (len s - clip)\<close>. This is the
  original length minus the pattern length exactly when the original string is at least
  as long as the pattern.
\<close>

theorem trim_on_route:
  assumes "samples sh = pre @ (nm, q) # rest"
    and "\<forall>e \<in> set pre. \<not> fst (QuadrupelIndex_match (snd e) (seq r1) (seq r2) (seq x1) (seq x2))"
    and "fst (QuadrupelIndex_match q (seq r1) (seq r2) (seq x1) (seq x2))"
    and "sinks_open sh"
  shows "\<exists>sh' r1' r2' f1 f2 c1 c2.
            process sh r1 r2 x1 x2 = Inr (sh', r1', r2')
          \<and> c1 = (if sequence (bc1 q) = ''-'' then 0 else length (sequence (bc1 q)))
          \<and> c2 = (if sequence (bc2 q) = ''-'' then 0 else length (sequence (bc2 q)))
          \<and> name r1' = name r1 \<and> name r2' = name r2
          \<and> seq r1' = drop c1 (seq r1) \<and> quali r1' = drop c1 (quali r1)
          \<and> seq r2' = drop c2 (seq r2) \<and> quali r2' = drop c2 (quali r2)
          \<and> seq r1 = take c1 (seq r1) @ seq r1' \<and> quali r1 = take c1 (quali r1) @ quali r1'
          \<and> seq r2 = take c2 (seq r2) @ seq r2' \<and> quali r2 = take c2 (quali r2) @ quali r2'
          \<and> int (length (seq r1')) = max 0 (int (length (seq r1)) - int c1)
          \<and> int (length (quali r1')) = max 0 (int (length (quali r1)) - int c1)
          \<and> int (length (seq r2')) = max 0 (int (length (seq r2)) - int c2)
          \<and> int (length (quali r2')) = max 0 (int (length (quali r2)) - int c2)
          \<and> (c1 \<le> length (seq r1) \<longrightarrow> int (length (seq r1')) = int (length (seq r1)) - int c1)
          \<and> (c1 \<le> length (quali r1) \<longrightarrow> int (length (quali r1')) = int (length (quali r1)) - int c1)
          \<and> (c2 \<le> length (seq r2) \<longrightarrow> int (length (seq r2')) = int (length (seq r2)) - int c2)
          \<and> (c2 \<le> length (quali r2) \<longrightarrow> int (length (quali r2')) = int (length (quali r2)) - int c2)
          \<and> map_of (outputHandles sh) nm = Some (f1, f2)
          \<and> map_of (outputHandles sh') nm =
               Some (f1 @ [name r1 @ [CHR 0x0A], drop c1 (seq r1) @ [CHR 0x0A], ''+'' @ [CHR 0x0A],
                           drop c1 (quali r1) @ [CHR 0x0A]],
                     f2 @ [name r2 @ [CHR 0x0A], drop c2 (seq r2) @ [CHR 0x0A], ''+'' @ [CHR 0x0A],
                           drop c2 (quali r2) @ [CHR 0x0A]])"
proof -
  obtain f1 f2 where f: "map_of (outputHandles sh) nm = Some (f1, f2)"
    using assms(1,4) by (auto simp: sinks_open_def list_all_iff)
  let ?c1 = "clip_length (bc1 q)" and ?c2 = "clip_length (bc2 q)"
  let ?r1 = "r1\<lparr>seq := drop ?c1 (seq r1), quali := drop ?c1 (quali r1)\<rparr>"
  let ?r2 = "r2\<lparr>seq := drop ?c2 (seq r2), quali := drop ?c2 (quali r2)\<rparr>"
  let ?sh' = "sh\<lparr>samples := pre @ (nm, snd (QuadrupelIndex_match q (seq r1) (seq r2) (seq x1) (seq x2))) # rest,
                  outputHandles := AList.update nm (f1 @ fastq_lines ?r1, f2 @ fastq_lines ?r2)
                    (outputHandles sh)\<rparr>"
  have p: "process sh r1 r2 x1 x2 = Inr (?sh', ?r1, ?r2)"
    by (rule process_routed [OF assms(1-3) f])
  have l: "int (length (drop n s)) = max 0 (int (length s) - int n)" for n and s :: string
    by simp
  have w: "map_of (outputHandles ?sh') nm =
             Some (f1 @ [name r1 @ [CHR 0x0A], drop ?c1 (seq r1) @ [CHR 0x0A], ''+'' @ [CHR 0x0A],
                         drop ?c1 (quali r1) @ [CHR 0x0A]],
                   f2 @ [name r2 @ [CHR 0x0A], drop ?c2 (seq r2) @ [CHR 0x0A], ''+'' @ [CHR 0x0A],
                         drop ?c2 (quali r2) @ [CHR 0x0A]])"
    by (simp add: AList.update_conv' fastq_lines_def)
  show ?thesis
    apply (rule exI [of _ ?sh'], rule exI [of _ ?r1], rule exI [of _ ?r2])
    apply (rule exI [of _ f1], rule exI [of _ f2], rule exI [of _ ?c1], rule exI [of _ ?c2])
    apply (intro conjI impI)
    using p f w l apply (simp_all add: clip_length_def)
    done
qed

theorem trim_on_route_witness:
  "process example_state (example_read ''GGGACGT'') (example_read ''TTTGGCA'')
        (example_read ''AAAA'') (example_read ''CCCC'') =
      Inr (example_state
             \<lparr>samples :=
                [(''S1'', \<lparr>i1 = \<lparr>sequence = ''AAAA'', mismatches = 0, hits = [(''AAAA'', 1)]\<rparr>,
                          i2 = \<lparr>sequence = ''CCCC'', mismatches = 0, hits = [(''CCCC'', 1)]\<rparr>,
                          bc1 = \<lparr>sequence = ''GGG'', mismatches = 0, hits = [(''GGG'', 1)]\<rparr>,
                          bc2 = \<lparr>sequence = ''TTT'', mismatches = 0, hits = [(''TTT'', 1)]\<rparr>\<rparr>),
                 (''S2'', QuadrupelIndex_init ''AAAA'' ''CCCC'' ''-'' ''-'' 0)],
              outputHandles :=
                [(''S1'', [''@r'' @ [CHR 0x0A], ''ACGT'' @ [CHR 0x0A], ''+'' @ [CHR 0x0A], ''IIII'' @ [CHR 0x0A]],
                          [''@r'' @ [CHR 0x0A], ''GGCA'' @ [CHR 0x0A], ''+'' @ [CHR 0x0A], ''IIII'' @ [CHR 0x0A]]),
                 (''S2'', [], []), (''Undetermined'', [], [])]\<rparr>,
           \<lparr>name = ''@r'', seq = ''ACGT'', quali = ''IIII''\<rparr>,
           \<lparr>name = ''@r'', seq = ''GGCA'', quali = ''IIII''\<rparr>)
   \<and> ''GGGACGT'' = ''GGG'' @ ''ACGT''
   \<and> int (length ''ACGT'') = int (length ''GGGACGT'') - int (length ''GGG'')"
proof -
  let ?q1 = "QuadrupelIndex_init ''AAAA'' ''CCCC'' ''GGG'' ''TTT'' 0"
  let ?q2 = "QuadrupelIndex_init ''AAAA'' ''CCCC'' ''-'' ''-'' 0"
  have a: "samples example_state = [] @ (''S1'', ?q1) # [(''S2'', ?q2)]"
    by (simp add: example_state_def)
  have b: "\<forall>e \<in> set []. \<not> fst (QuadrupelIndex_match (snd e) (seq (example_read ''GGGACGT''))
      (seq (example_read ''TTTGGCA'')) (seq (example_read ''AAAA'')) (seq (example_read ''CCCC'')))"
    by simp
  have c: "fst (QuadrupelIndex_match ?q1 (seq (example_read ''GGGACGT''))
      (seq (example_read ''TTTGGCA'')) (seq (example_read ''AAAA'')) (seq (example_read ''CCCC'')))"
    by (simp add: QuadrupelIndex_match_def QuadrupelIndex_init_def Index_init_def Index_match_def
        nrM_def)
  have q': "snd (QuadrupelIndex_match ?q1 ''GGGACGT'' ''TTTGGCA'' ''AAAA'' ''CCCC'') =
      \<lparr>i1 = \<lparr>sequence = ''AAAA'', mismatches = 0, hits = [(''AAAA'', 1)]\<rparr>,
       i2 = \<lparr>sequence = ''CCCC'', mismatches = 0, hits = [(''CCCC'', 1)]\<rparr>,
       bc1 = \<lparr>sequence = ''GGG'', mismatches = 0, hits = [(''GGG'', 1)]\<rparr>,
       bc2 = \<lparr>sequence = ''TTT'', mismatches = 0, hits = [(''TTT'', 1)]\<rparr>\<rparr>"
    by (simp add: QuadrupelIndex_match_def QuadrupelIndex_init_def Index_init_def Index_match_def
        nrM_def recordHit_def)
  from trim_on_route [OF a b c example_state_sinks]
  obtain sh' r1' r2' where
    p: "process example_state (example_read ''GGGACGT'') (example_read ''TTTGGCA'')
          (example_read ''AAAA'') (example_read ''CCCC'') = Inr (sh', r1', r2')"
    by (elim exE conjE)
  have f: "map_of (outputHandles example_state) ''S1'' = Some ([], [])"
    by (simp add: example_state_def)
  have e: "process example_state (example_read ''GGGACGT'') (example_read ''TTTGGCA'')
        (example_read ''AAAA'') (example_read ''CCCC'') =
      Inr (example_state
             \<lparr>samples := [(''S1'', snd (QuadrupelIndex_match ?q1 ''GGGACGT'' ''TTTGGCA'' ''AAAA'' ''CCCC'')),
                         (''S2'', ?q2)],
              outputHandles :=
                [(''S1'', [''@r'' @ [CHR 0x0A], ''ACGT'' @ [CHR 0x0A], ''+'' @ [CHR 0x0A], ''IIII'' @ [CHR 0x0A]],
                          [''@r'' @ [CHR 0x0A], ''GGCA'' @ [CHR 0x0A], ''+'' @ [CHR 0x0A], ''IIII'' @ [CHR 0x0A]]),
                 (''S2'', [], []), (''Undetermined'', [], [])]\<rparr>,
           \<lparr>name = ''@r'', seq = ''ACGT'', quali = ''IIII''\<rparr>,
           \<lparr>name = ''@r'', seq = ''GGCA'', quali = ''IIII''\<rparr>)"
    using process_routed [OF a b c f]
    by (simp add: clip_length_def QuadrupelIndex_init_def Index_init_def example_read_def fastq_lines_def)
       (simp add: example_state_def)
  have g: "''GGGACGT'' = ''GGG'' @ ''ACGT''" by simp
  have h: "int (length ''ACGT'') = int (length ''GGGACGT'') - int (length ''GGG'')" by simp
  show ?thesis using p by (intro conjI) (rule e [unfolded q'] g h)+
qed

text \<open>The claim as stated fails for a read shorter than the barcode pattern: the read
  \<open>GG\<close> matches the barcode \<open>GGG\<close> of sample \<open>S1\<close> under budget 0 (see C10) and is routed
  to \<open>S1\<close>; the emitted sequence and quality are empty, of length 0 and not \<open>2 - 3\<close>, and
  the two characters removed are not a prefix of length 3.\<close>

theorem trim_short_read_counterexample:
  "process example_state (example_read ''GG'') (example_read ''TTTGGCA'')
        (example_read ''AAAA'') (example_read ''CCCC'') =
      Inr (example_state
             \<lparr>samples :=
                [(''S1'', \<lparr>i1 = \<lparr>sequence = ''AAAA'', mismatches = 0, hits = [(''AAAA'', 1)]\<rparr>,
                          i2 = \<lparr>sequence = ''CCCC'', mismatches = 0, hits = [(''CCCC'', 1)]\<rparr>,
                          bc1 = \<lparr>sequence = ''GGG'', mismatches = 0, hits = [(''GG'', 1)]\<rparr>,
                          bc2 = \<lparr>sequence = ''TTT'', mismatches = 0, hits = [(''TTT'', 1)]\<rparr>\<rparr>),
                 (''S2'', QuadrupelIndex_init ''AAAA'' ''CCCC'' ''-'' ''-'' 0)],
              outputHandles :=
                [(''S1'', [''@r'' @ [CHR 0x0A], '''' @ [CHR 0x0A], ''+'' @ [CHR 0x0A], '''' @ [CHR 0x0A]],
                          [''@r'' @ [CHR 0x0A], ''GGCA'' @ [CHR 0x0A], ''+'' @ [CHR 0x0A], ''IIII'' @ [CHR 0x0A]]),
                 (''S2'', [], []), (''Undetermined'', [], [])]\<rparr>,
           \<lparr>name = ''@r'', seq = '''', quali = ''''\<rparr>,
           \<lparr>name = ''@r'', seq = ''GGCA'', quali = ''IIII''\<rparr>)
   \<and> int (length '''') \<noteq> int (length ''GG'') - int (length ''GGG'')"
proof -
  let ?q1 = "QuadrupelIndex_init ''AAAA'' ''CCCC'' ''GGG'' ''TTT'' 0"
  let ?q2 = "QuadrupelIndex_init ''AAAA'' ''CCCC'' ''-'' ''-'' 0"
  have a: "samples example_state = [] @ (''S1'', ?q1) # [(''S2'', ?q2)]"
    by (simp add: example_state_def)
  have b: "\<forall>e \<in> set []. \<not> fst (QuadrupelIndex_match (snd e) (seq (example_read ''GG''))
      (seq (example_read ''TTTGGCA'')) (seq (example_read ''AAAA'')) (seq (example_read ''CCCC'')))"
    by simp
  have c: "fst (QuadrupelIndex_match ?q1 (seq (example_read ''GG''))
      (seq (example_read ''TTTGGCA'')) (seq (example_read ''AAAA'')) (seq (example_read ''CCCC'')))"
    by (simp add: QuadrupelIndex_match_def QuadrupelIndex_init_def Index_init_def Index_match_def
        nrM_def)
  have q': "snd (QuadrupelIndex_match ?q1 ''GG'' ''TTTGGCA'' ''AAAA'' ''CCCC'') =
      \<lparr>i1 = \<lparr>sequence = ''AAAA'', mismatches = 0, hits = [(''AAAA'', 1)]\<rparr>,
       i2 = \<lparr>sequence = ''CCCC'', mismatches = 0, hits = [(''CCCC'', 1)]\<rparr>,
       bc1 = \<lparr>sequence = ''GGG'', mismatches = 0, hits = [(''GG'', 1)]\<rparr>,
       bc2 = \<lparr>sequence = ''TTT'', mismatches = 0, hits = [(''TTT'', 1)]\<rparr>\<rparr>"
    by (simp add: QuadrupelIndex_match_def QuadrupelIndex_init_def Index_init_def Index_match_def
        nrM_def recordHit_def)
  have f: "map_of (outputHandles example_state) ''S1'' = Some ([], [])"
    by (simp add: example_state_def)
  have e: "process example_state (example_read ''GG'') (example_read ''TTTGGCA'')
        (example_read ''AAAA'') (example_read ''CCCC'') =
      Inr (example_state
             \<lparr>samples := [(''S1'', snd (QuadrupelIndex_match ?q1 ''GG'' ''TTTGGCA'' ''AAAA'' ''CCCC'')),
                         (''S2'', ?q2)],
              outputHandles :=
                [(''S1'', [''@r'' @ [CHR 0x0A], '''' @ [CHR 0x0A], ''+'' @ [CHR 0x0A], '''' @ [CHR 0x0A]],
                          [''@r'' @ [CHR 0x0A], ''GGCA'' @ [CHR 0x0A], ''+'' @ [CHR 0x0A], ''IIII'' @ [CHR 0x0A]]),
                 (''S2'', [], []), (''Undetermined'', [], [])]\<rparr>,
           \<lparr>name = ''@r'', seq = '''', quali = ''''\<rparr>,
           \<lparr>name = ''@r'', seq = ''GGCA'', quali = ''IIII''\<rparr>)"
    using process_routed [OF a b c f]
    by (simp add: clip_length_def QuadrupelIndex_init_def Index_init_def example_read_def fastq_lines_def)
       (simp add: example_state_def)
  have h: "int (length '''') \<noteq> int (length ''GG'') - int (length ''GGG'')" by simp
  show ?thesis by (intro conjI) (rule e [unfolded q'] h)+
qed

text \<open>
  Claim C7. When no sample of the sheet matches the quadruple, \<open>process\<close> returns
  normally with the undetermined counter one higher and the two records exactly as they
  came (nothing is trimmed); the samples and their hit tables are untouched. With the
  undetermined bucket enabled, the handles of \<open>Undetermined\<close> have received the four lines
  of each untrimmed record (its name, its whole sequence, \<open>+\<close> and its whole quality
  string, each ended by a newline) and nothing else about the handles has changed; with
  the bucket disabled no handle has changed at all.
\<close>

theorem undetermined_path:
  assumes "\<forall>e \<in> set (samples sh).
             \<not> fst (QuadrupelIndex_match (snd e) (seq r1) (seq r2) (seq x1) (seq x2))"
    and "sinks_open sh"
  shows "\<exists>outs. process sh r1 r2 x1 x2 =
                  Inr (sh\<lparr>undetermined := undetermined sh + 1, outputHandles := outs\<rparr>, r1, r2)
          \<and> (if withUndetermined sh
              then \<exists>f1 f2. map_of (outputHandles sh) ''Undetermined'' = Some (f1, f2)
                     \<and> outs = AList.update ''Undetermined''
                                (f1 @ [name r1 @ [CHR 0x0A], seq r1 @ [CHR 0x0A], ''+'' @ [CHR 0x0A],
                                       quali r1 @ [CHR 0x0A]],
                                 f2 @ [name r2 @ [CHR 0x0A], seq r2 @ [CHR 0x0A], ''+'' @ [CHR 0x0A],
                                       quali r2 @ [CHR 0x0A]])
                                (outputHandles sh)
              else outs = outputHandles sh)"
proof (cases "withUndetermined sh")
  case False
  then show ?thesis
    by (intro exI [of _ "outputHandles sh"]) (simp add: process_undetermined [OF assms(1)])
next
  case True
  then obtain f1 f2 where f: "map_of (outputHandles sh) ''Undetermined'' = Some (f1, f2)"
    using assms(2) by (auto simp: sinks_open_def)
  show ?thesis
    using True f
    by (intro exI [of _ "AList.update ''Undetermined''
          (f1 @ fastq_lines r1, f2 @ fastq_lines r2) (outputHandles sh)"])
       (simp add: process_undetermined [OF assms(1)] fastq_lines_def)
qed

theorem undetermined_path_witness:
  "process example_state (example_read ''GGGACGT'') (example_read ''TTTGGCA'')
        (example_read ''AAAT'') (example_read ''CCCC'') =
      Inr (example_state
             \<lparr>undetermined := 1,
              outputHandles :=
                [(''S1'', [], []), (''S2'', [], []),
                 (''Undetermined'',
                  [''@r'' @ [CHR 0x0A], ''GGGACGT'' @ [CHR 0x0A], ''+'' @ [CHR 0x0A], ''IIIIIII'' @ [CHR 0x0A]],
                  [''@r'' @ [CHR 0x0A], ''TTTGGCA'' @ [CHR 0x0A], ''+'' @ [CHR 0x0A], ''IIIIIII'' @ [CHR 0x0A]])]\<rparr>,
           \<lparr>name = ''@r'', seq = ''GGGACGT'', quali = ''IIIIIII''\<rparr>,
           \<lparr>name = ''@r'', seq = ''TTTGGCA'', quali = ''IIIIIII''\<rparr>)
   \<and> process (example_state\<lparr>outputHandles := [(''S1'', [], []), (''S2'', [], [])],
                              withUndetermined := False\<rparr>)
        (example_read ''GGGACGT'') (example_read ''TTTGGCA'')
        (example_read ''AAAT'') (example_read ''CCCC'') =
      Inr (example_state\<lparr>outputHandles := [(''S1'', [], []), (''S2'', [], [])],
                          withUndetermined := False, undetermined := 1\<rparr>,
           \<lparr>name = ''@r'', seq = ''GGGACGT'', quali = ''IIIIIII''\<rparr>,
           \<lparr>name = ''@r'', seq = ''TTTGGCA'', quali = ''IIIIIII''\<rparr>)"
proof -
  let ?off = "example_state\<lparr>outputHandles := [(''S1'', [], []), (''S2'', [], [])],
                              withUndetermined := False\<rparr>"
  have n: "\<not> fst (QuadrupelIndex_match q ''GGGACGT'' ''TTTGGCA'' ''AAAT'' ''CCCC'')"
    if "q = QuadrupelIndex_init ''AAAA'' ''CCCC'' ''GGG'' ''TTT'' 0 \<or>
        q = QuadrupelIndex_init ''AAAA'' ''CCCC'' ''-'' ''-'' 0" for q
    using that
    by (auto simp: QuadrupelIndex_match_def QuadrupelIndex_init_def Index_init_def Index_match_def
        nrM_def)
  have a: "\<forall>e \<in> set (samples example_state). \<not> fst (QuadrupelIndex_match (snd e)
      (seq (example_read ''GGGACGT'')) (seq (example_read ''TTTGGCA''))
      (seq (example_read ''AAAT'')) (seq (example_read ''CCCC'')))"
    using n by (simp add: example_state_def)
  have a': "\<forall>e \<in> set (samples ?off). \<not> fst (QuadrupelIndex_match (snd e)
      (seq (example_read ''GGGACGT'')) (seq (example_read ''TTTGGCA''))
      (seq (example_read ''AAAT'')) (seq (example_read ''CCCC'')))"
    using a by simp
  have s': "sinks_open ?off"
    by (simp add: sinks_open_def example_state_def)
  have r: "example_read ''GGGACGT'' = \<lparr>name = ''@r'', seq = ''GGGACGT'', quali = ''IIIIIII''\<rparr>"
    "example_read ''TTTGGCA'' = \<lparr>name = ''@r'', seq = ''TTTGGCA'', quali = ''IIIIIII''\<rparr>"
    by (simp_all add: example_read_def)
  from undetermined_path [OF a example_state_sinks]
  have 1: "process example_state (example_read ''GGGACGT'') (example_read ''TTTGGCA'')
        (example_read ''AAAT'') (example_read ''CCCC'') =
      Inr (example_state
             \<lparr>undetermined := 1,
              outputHandles :=
                [(''S1'', [], []), (''S2'', [], []),
                 (''Undetermined'',
                  [''@r'' @ [CHR 0x0A], ''GGGACGT'' @ [CHR 0x0A], ''+'' @ [CHR 0x0A], ''IIIIIII'' @ [CHR 0x0A]],
                  [''@r'' @ [CHR 0x0A], ''TTTGGCA'' @ [CHR 0x0A], ''+'' @ [CHR 0x0A], ''IIIIIII'' @ [CHR 0x0A]])]\<rparr>,
           example_read ''GGGACGT'', example_read ''TTTGGCA'')"
    by (auto simp: example_state_def)
  from undetermined_path [OF a' s']
  have 2: "process ?off (example_read ''GGGACGT'') (example_read ''TTTGGCA'')
        (example_read ''AAAT'') (example_read ''CCCC'') =
      Inr (?off\<lparr>undetermined := 1\<rparr>, example_read ''GGGACGT'', example_read ''TTTGGCA'')"
    by (auto simp: example_state_def)
  show ?thesis using 1 2 unfolding r by simp
qed

section \<open>Conservation of the counters\<close>

lemma counters_sum:
  "sum_list (counters sh) =
     undetermined sh + sum_list (map (\<lambda>(nm, qi). accepted_count qi) (samples sh))"
  by (simp add: counters_def)

lemma length_zip4:
  "int (length (zip a (zip b (zip c d)))) =
     min (int (length a)) (min (int (length b)) (min (int (length c)) (int (length d))))"
  by simp

text \<open>
  Claim C3. Whenever the constructor accepts the sheet, the run returns normally, and at
  its end the undetermined counter plus the sum over all samples of the sample's accepted
  count (the sum of the counts of its index-1 hit table) is the number of quadruples
  processed, \<open>nr - 1\<close>. That number is the length of the shortest of the four streams,
  or, under a cap \<open>endAfter\<close>, the smaller of that length and the cap (the first quadruple
  is processed under every cap). The two totals \<open>reportStats\<close> prints, the sum over
  \<open>nameOrder\<close> and the undetermined counter, add up to the same number when the names of
  the sheet are pairwise distinct. Every call of \<open>process\<close> on a sheet whose names all
  have handles returns normally and adds exactly one to exactly one of the terms (the
  undetermined counter or the accepted count of one sample), leaving the others as they
  were.
\<close>

theorem run_conservation:
  assumes "SampleSheet_init fs sample_sheet outputTemplate m withUnd = Inr sh0"
  shows "(\<exists>sh nr. main fs sample_sheet outputTemplate m withUnd endAfter fqR1 fqR2 fqI1 fqI2 = Inr (sh, nr)
            \<and> undetermined sh + sum_list (map (\<lambda>(nm, qi). accepted_count qi) (samples sh)) = nr - 1
            \<and> nr - 1 =
                (case endAfter of
                   None \<Rightarrow> min (int (length fqR1)) (min (int (length fqR2))
                             (min (int (length fqI1)) (int (length fqI2))))
                 | Some n \<Rightarrow> min (min (int (length fqR1)) (min (int (length fqR2))
                             (min (int (length fqI1)) (int (length fqI2))))) (max 1 n))
            \<and> (distinct (map (\<lambda>line. line ! 0) sample_sheet) \<longrightarrow>
                 reportStats sh = Inr (nr - 1 - undetermined sh, undetermined sh)))
       \<and> sinks_open sh0
       \<and> (\<forall>sh r1 r2 x1 x2. sinks_open sh \<longrightarrow>
            (\<exists>sh' r1' r2' i. process sh r1 r2 x1 x2 = Inr (sh', r1', r2')
               \<and> sinks_open sh'
               \<and> i < length (counters sh)
               \<and> counters sh' = (counters sh)[i := counters sh ! i + 1]))"
proof -
  let ?quads = "zip fqR1 (zip fqR2 (zip fqI1 fqI2))"
  note init = SampleSheet_init_result [OF assms]
  from main_loop_run [OF init(1), of 1 endAfter ?quads]
  obtain sh nr where run: "main_loop sh0 1 endAfter ?quads = Inr (sh, nr)"
    and sum: "sum_list (counters sh) = sum_list (counters sh0) + (nr - 1)"
    and cnt: "nr - 1 = (case endAfter of None \<Rightarrow> int (length ?quads)
                          | Some n \<Rightarrow> min (int (length ?quads)) (max 1 (n - 1 + 1)))"
    and names: "map fst (samples sh) = map fst (samples sh0)" "nameOrder sh = nameOrder sh0"
    by (elim exE conjE)
  have m: "main fs sample_sheet outputTemplate m withUnd endAfter fqR1 fqR2 fqI1 fqI2 = Inr (sh, nr)"
    using assms run by (simp add: main_def)
  have total: "undetermined sh + sum_list (map (\<lambda>(nm, qi). accepted_count qi) (samples sh)) = nr - 1"
    using sum init(2) by (simp add: counters_sum)
  have cnt': "nr - 1 =
      (case endAfter of
         None \<Rightarrow> min (int (length fqR1)) (min (int (length fqR2))
                   (min (int (length fqI1)) (int (length fqI2))))
       | Some n \<Rightarrow> min (min (int (length fqR1)) (min (int (length fqR2))
                   (min (int (length fqI1)) (int (length fqI2))))) (max 1 n))"
    using cnt unfolding length_zip4 by (simp split: option.splits)
  have rep: "reportStats sh = Inr (nr - 1 - undetermined sh, undetermined sh)"
    if d: "distinct (map (\<lambda>line. line ! 0) sample_sheet)"
  proof -
    have k: "map fst (samples sh0) = map (\<lambda>line. line ! 0) sample_sheet"
      using init(4) [OF d] by (simp add: comp_def)
    have o: "nameOrder sh = map fst (samples sh)"
      using names init(3) k by simp
    have "distinct (map fst (samples sh))" using names k d by simp
    from reportStats_total_keys [OF this] total show ?thesis
      by (simp add: reportStats_def o)
  qed
  have step: "\<exists>sh' r1' r2' i. process s r1 r2 x1 x2 = Inr (sh', r1', r2')
               \<and> sinks_open sh'
               \<and> i < length (counters s)
               \<and> counters sh' = (counters s)[i := counters s ! i + 1]"
    if "sinks_open s" for s r1 r2 x1 x2
    using process_step [OF that, of r1 r2 x1 x2] by blast
  show ?thesis
    using m total cnt' rep init(1) step by blast
qed

theorem run_conservation_witness:
  "SampleSheet_init example_fs example_sheet example_template 0 True = Inr example_state
   \<and> snd (projr (main example_fs example_sheet example_template 0 True None
        [example_read ''GGGACGT'', example_read ''GGGACGT'', example_read ''CCCACGT'']
        [example_read ''TTTGGCA'', example_read ''TTTGGCA'', example_read ''TTTGGCA'']
        [example_read ''AAAA'', example_read ''AAAT'', example_read ''AAAA'', example_read ''AAAA'']
        [example_read ''CCCC'', example_read ''CCCC'', example_read ''CCCC''])) - 1 = 3
   \<and> undetermined (fst (projr (main example_fs example_sheet example_template 0 True None
        [example_read ''GGGACGT'', example_read ''GGGACGT'', example_read ''CCCACGT'']
        [example_read ''TTTGGCA'', example_read ''TTTGGCA'', example_read ''TTTGGCA'']
        [example_read ''AAAA'', example_read ''AAAT'', example_read ''AAAA'', example_read ''AAAA'']
        [example_read ''CCCC'', example_read ''CCCC'', example_read ''CCCC''])))
     + sum_list (map (\<lambda>(nm, qi). accepted_count qi) (samples (fst (projr (main example_fs example_sheet example_template 0 True None
        [example_read ''GGGACGT'', example_read ''GGGACGT'', example_read ''CCCACGT'']
        [example_read ''TTTGGCA'', example_read ''TTTGGCA'', example_read ''TTTGGCA'']
        [example_read ''AAAA'', example_read ''AAAT'', example_read ''AAAA'', example_read ''AAAA'']
        [example_read ''CCCC'', example_read ''CCCC'', example_read ''CCCC'']))))) = 3"
proof -
  let ?run = "main example_fs example_sheet example_template 0 True None
        [example_read ''GGGACGT'', example_read ''GGGACGT'', example_read ''CCCACGT'']
        [example_read ''TTTGGCA'', example_read ''TTTGGCA'', example_read ''TTTGGCA'']
        [example_read ''AAAA'', example_read ''AAAT'', example_read ''AAAA'', example_read ''AAAA'']
        [example_read ''CCCC'', example_read ''CCCC'', example_read ''CCCC'']"
  from run_conservation [OF example_state_init, THEN conjunct1, of None
        "[example_read ''GGGACGT'', example_read ''GGGACGT'', example_read ''CCCACGT'']"
        "[example_read ''TTTGGCA'', example_read ''TTTGGCA'', example_read ''TTTGGCA'']"
        "[example_read ''AAAA'', example_read ''AAAT'', example_read ''AAAA'', example_read ''AAAA'']"
        "[example_read ''CCCC'', example_read ''CCCC'', example_read ''CCCC'']"]
  obtain sh nr where r: "?run = Inr (sh, nr)"
    and t: "undetermined sh + sum_list (map (\<lambda>(nm, qi). accepted_count qi) (samples sh)) = nr - 1"
    and n: "nr - 1 = (case None :: int option of
                   None \<Rightarrow> min (int (length [example_read ''GGGACGT'', example_read ''GGGACGT'', example_read ''CCCACGT'']))
                       (min (int (length [example_read ''TTTGGCA'', example_read ''TTTGGCA'', example_read ''TTTGGCA'']))
                             (min (int (length [example_read ''AAAA'', example_read ''AAAT'', example_read ''AAAA'', example_read ''AAAA'']))
                                  (int (length [example_read ''CCCC'', example_read ''CCCC'', example_read ''CCCC'']))))
                 | Some n \<Rightarrow> min (min (int (length [example_read ''GGGACGT'', example_read ''GGGACGT'', example_read ''CCCACGT'']))
                       (min (int (length [example_read ''TTTGGCA'', example_read ''TTTGGCA'', example_read ''TTTGGCA'']))
                             (min (int (length [example_read ''AAAA'', example_read ''AAAT'', example_read ''AAAA'', example_read ''AAAA'']))
                                  (int (length [example_read ''CCCC'', example_read ''CCCC'', example_read ''CCCC'']))))) (max 1 n))"
    by (elim exE conjE)
  have n3: "nr - 1 = 3" using n by simp
  show ?thesis
    unfolding r using example_state_init t n3 by simp
qed

section \<open>Validation of the sheet\<close>





end
